theory Spec2Isabelle
  imports Main
begin

section \<open>JavaScript values\<close>

text \<open>
  Plain values as the handler sees them after decoding a stream record: the image of
  the decoder on DynamoDB attributes, plus \<open>undefined\<close>. An object is the list of its
  own properties in enumeration order (the order of \<open>Object.keys\<close>); a number is an
  integer (fractions and the limits of double precision are outside the model).
\<close>

datatype jsval =
    JUndefined
  | JNull
  | JBool bool
  | JNum int
  | JStr string
  | JArr "jsval list"
  | JObj "(string \<times> jsval) list"

text \<open>Truthiness, as tested by \<open>if (x)\<close>, \<open>!x\<close>, \<open>x || y\<close> and \<open>x && y\<close>.\<close>

fun truthy :: "jsval \<Rightarrow> bool" where
  "truthy JUndefined = False"
| "truthy JNull = False"
| "truthy (JBool b) = b"
| "truthy (JNum n) = (n \<noteq> 0)"
| "truthy (JStr s) = (s \<noteq> [])"
| "truthy (JArr xs) = True"
| "truthy (JObj kvs) = True"

text \<open>\<open>x == null\<close>: true of \<open>null\<close> and \<open>undefined\<close> only.\<close>

fun nullish :: "jsval \<Rightarrow> bool" where
  "nullish JUndefined = True"
| "nullish JNull = True"
| "nullish v = False"

subsection \<open>Conversion to string\<close>

definition digit :: "nat \<Rightarrow> char" where
  "digit d = char_of (48 + d)"

fun showNat :: "nat \<Rightarrow> string" where
  "showNat n = (if n < 10 then [digit n] else showNat (n div 10) @ [digit (n mod 10)])"

declare showNat.simps [simp del]

definition showInt :: "int \<Rightarrow> string" where
  "showInt i = (if i < 0 then CHR ''-'' # showNat (nat (- i)) else showNat (nat i))"

text \<open>The strings of a list with a separator between neighbours.\<close>

fun joinStrings :: "string \<Rightarrow> string list \<Rightarrow> string" where
  "joinStrings sep [] = []"
| "joinStrings sep [s] = s"
| "joinStrings sep (s # t # ss) = s @ sep @ joinStrings sep (t # ss)"

text \<open>
  \<open>String(v)\<close>, which a template literal applies to an interpolated value. An array
  is joined with commas, where \<open>null\<close> and \<open>undefined\<close> elements give the empty string.
\<close>

fun toStringJS :: "jsval \<Rightarrow> string" where
  "toStringJS JUndefined = ''undefined''"
| "toStringJS JNull = ''null''"
| "toStringJS (JBool b) = (if b then ''true'' else ''false'')"
| "toStringJS (JNum n) = showInt n"
| "toStringJS (JStr s) = s"
| "toStringJS (JArr xs) =
     joinStrings '','' (map (\<lambda>x. if nullish x then [] else toStringJS x) xs)"
| "toStringJS (JObj kvs) = ''[object Object]''"

text \<open>\<open>Array.prototype.join\<close> with an explicit separator.\<close>

definition joinElem :: "jsval \<Rightarrow> string" where
  "joinElem x = (if nullish x then [] else toStringJS x)"

definition join :: "jsval list \<Rightarrow> string \<Rightarrow> string" where
  "join xs sep = joinStrings sep (map joinElem xs)"

subsection \<open>Property access\<close>

text \<open>
  \<open>object[key]\<close> and \<open>key in Object(object)\<close> over own properties: the properties of an
  object, the indices and \<open>length\<close> of an array or a string. Inherited (prototype)
  members are outside the model.
\<close>

fun lookup :: "(string \<times> jsval) list \<Rightarrow> string \<Rightarrow> jsval option" where
  "lookup [] k = None"
| "lookup ((k', v) # kvs) k = (if k' = k then Some v else lookup kvs k)"

definition indexOfKey :: "nat \<Rightarrow> string \<Rightarrow> nat option" where
  "indexOfKey len k = List.find (\<lambda>i. showNat i = k) [0..<len]"

fun getProp :: "jsval \<Rightarrow> string \<Rightarrow> jsval" where
  "getProp (JObj kvs) k = (case lookup kvs k of Some v \<Rightarrow> v | None \<Rightarrow> JUndefined)"
| "getProp (JArr xs) k =
     (case indexOfKey (length xs) k of
        Some i \<Rightarrow> xs ! i
      | None \<Rightarrow> if k = ''length'' then JNum (int (length xs)) else JUndefined)"
| "getProp (JStr s) k =
     (case indexOfKey (length s) k of
        Some i \<Rightarrow> JStr [s ! i]
      | None \<Rightarrow> if k = ''length'' then JNum (int (length s)) else JUndefined)"
| "getProp v k = JUndefined"

fun hasProp :: "jsval \<Rightarrow> string \<Rightarrow> bool" where
  "hasProp (JObj kvs) k = (lookup kvs k \<noteq> None)"
| "hasProp (JArr xs) k = (indexOfKey (length xs) k \<noteq> None \<or> k = ''length'')"
| "hasProp (JStr s) k = (indexOfKey (length s) k \<noteq> None \<or> k = ''length'')"
| "hasProp v k = False"

section \<open>The lodash collaborators: get and pick\<close>

text \<open>
  \<open>lodash/get\<close> and \<open>lodash/pick\<close> are library functions. They are modelled on
  dotted paths: a path that is itself a property of the object, or that has no dot,
  is one key; any other path is split at its dots. The bracket syntax of lodash paths
  (\<open>a[0]\<close>, \<open>a["b"]\<close>) is not interpreted.
\<close>

fun splitOn :: "char \<Rightarrow> string \<Rightarrow> string list" where
  "splitOn c [] = [[]]"
| "splitOn c (x # xs) =
     (if x = c then [] # splitOn c xs
      else (case splitOn c xs of
              [] \<Rightarrow> [[x]]
            | w # ws \<Rightarrow> (x # w) # ws))"

definition isKey :: "string \<Rightarrow> jsval \<Rightarrow> bool" where
  "isKey path object = (CHR ''.'' \<notin> set path \<or> (\<not> nullish object \<and> hasProp object path))"

text \<open>A missing path (\<open>undefined\<close>) is the single key \<open>"undefined"\<close>.\<close>

definition castPath :: "string option \<Rightarrow> jsval \<Rightarrow> string list" where
  "castPath path object =
     (case path of
        None \<Rightarrow> [''undefined'']
      | Some p \<Rightarrow> if isKey p object then [p] else splitOn (CHR ''.'') p)"

text \<open>
  The loop of \<open>baseGet\<close>: it stops at a \<open>null\<close> or \<open>undefined\<close> object, and the result is
  \<open>undefined\<close> unless the whole path was walked.
\<close>

fun walk :: "jsval \<Rightarrow> string list \<Rightarrow> jsval" where
  "walk object [] = object"
| "walk object (k # ks) = (if nullish object then JUndefined else walk (getProp object k) ks)"

definition baseGet :: "jsval \<Rightarrow> string option \<Rightarrow> jsval" where
  "baseGet object path =
     (let ks = castPath path object in if ks = [] then JUndefined else walk object ks)"

definition get :: "jsval \<Rightarrow> string option \<Rightarrow> jsval" where
  "get object path = (if nullish object then JUndefined else baseGet object path)"

fun hasPath :: "jsval \<Rightarrow> string list \<Rightarrow> bool" where
  "hasPath object [] = False"
| "hasPath object [k] = (\<not> nullish object \<and> hasProp object k)"
| "hasPath object (k # k' # ks) =
     (\<not> nullish object \<and> hasProp object k \<and> hasPath (getProp object k) (k' # ks))"

definition hasIn :: "jsval \<Rightarrow> string \<Rightarrow> bool" where
  "hasIn object path = (\<not> nullish object \<and> hasPath object (castPath (Some path) object))"

fun assignValue :: "(string \<times> jsval) list \<Rightarrow> string \<Rightarrow> jsval \<Rightarrow> (string \<times> jsval) list" where
  "assignValue [] k v = [(k, v)]"
| "assignValue ((k', v') # kvs) k v =
     (if k' = k then (k, v) # kvs else (k', v') # assignValue kvs k v)"

text \<open>
  \<open>baseSet\<close> on the result object of \<open>pick\<close>: intermediate keys hold the object already
  there, or a fresh one.
\<close>

fun baseSet :: "(string \<times> jsval) list \<Rightarrow> string list \<Rightarrow> jsval \<Rightarrow> (string \<times> jsval) list" where
  "baseSet object [] v = object"
| "baseSet object [k] v = assignValue object k v"
| "baseSet object (k # k' # ks) v =
     assignValue object k
       (JObj (baseSet (case lookup object k of Some (JObj nested) \<Rightarrow> nested | _ \<Rightarrow> [])
                (k' # ks) v))"

fun basePick :: "jsval \<Rightarrow> string list \<Rightarrow> (string \<times> jsval) list \<Rightarrow> (string \<times> jsval) list" where
  "basePick object [] result = result"
| "basePick object (p # ps) result =
     basePick object ps
       (if hasIn object p
        then baseSet result (castPath (Some p) object) (baseGet object (Some p))
        else result)"

text \<open>A field selection: one path or an ordered list of paths.\<close>

datatype paths = Single string | Multi "string list"

fun flattenPaths :: "paths \<Rightarrow> string list" where
  "flattenPaths (Single p) = [p]"
| "flattenPaths (Multi ps) = ps"

definition pick :: "jsval \<Rightarrow> paths \<Rightarrow> jsval" where
  "pick object ps = (if nullish object then JObj [] else JObj (basePick object (flattenPaths ps) []))"

section \<open>Stream records and their decoding\<close>

text \<open>
  The wire encoding of an attribute: a value tagged with its type. Numbers are taken
  as already read; binary and set attributes are not modelled.
\<close>

datatype attr =
    AS string
  | AN int
  | ABOOL bool
  | ANULL
  | AL "attr list"
  | AM "(string \<times> attr) list"

type_synonym obj = "(string \<times> jsval) list"

record dynamodbRecord =
  wire_Keys :: "(string \<times> attr) list"
  wire_NewImage :: "(string \<times> attr) list option"
  wire_OldImage :: "(string \<times> attr) list option"

record rawRecord =
  eventName :: "string option"
  eventSource :: "string option"
  dynamodb :: "dynamodbRecord option"

record streamEvent =
  Records :: "rawRecord list"

record parsedRecord =
  NewImage :: obj
  OldImage :: obj
  Keys :: obj

datatype error =
    ValidationError string
  | FieldNotFoundError parsedRecord "string option"
  | UnknownEventNameError rawRecord
  | TypeError string
  | Thrown jsval

text \<open>Sequencing of steps that may throw: the first error ends the computation.\<close>

definition andThen :: "error + 'a \<Rightarrow> ('a \<Rightarrow> error + 'b) \<Rightarrow> error + 'b" where
  "andThen r f = (case r of Inl e \<Rightarrow> Inl e | Inr v \<Rightarrow> f v)"

fun unmarshall :: "attr \<Rightarrow> jsval" where
  "unmarshall (AS s) = JStr s"
| "unmarshall (AN n) = JNum n"
| "unmarshall (ABOOL b) = JBool b"
| "unmarshall ANULL = JNull"
| "unmarshall (AL xs) = JArr (map unmarshall xs)"
| "unmarshall (AM kvs) = JObj (map (\<lambda>(k, v). (k, unmarshall v)) kvs)"

definition unmarshallMap :: "(string \<times> attr) list \<Rightarrow> obj" where
  "unmarshallMap kvs = map (\<lambda>(k, v). (k, unmarshall v)) kvs"

text \<open>
  \<open>parseRecord\<close>: a missing image decodes to the empty object. Reading the images of
  a record without its \<open>dynamodb\<close> member throws.
\<close>

definition parseRecord :: "rawRecord \<Rightarrow> error + parsedRecord" where
  "parseRecord record =
     (case dynamodb record of
        None \<Rightarrow> Inl (TypeError ''dynamodb'')
      | Some d \<Rightarrow>
          Inr \<lparr> NewImage = unmarshallMap (case wire_NewImage d of None \<Rightarrow> [] | Some m \<Rightarrow> m),
                OldImage = unmarshallMap (case wire_OldImage d of None \<Rightarrow> [] | Some m \<Rightarrow> m),
                Keys = unmarshallMap (wire_Keys d) \<rparr>)"

section \<open>FieldResolver\<close>

text \<open>
  \<open>getField\<close>: the reduce over \<open>[Keys, NewImage, OldImage]\<close> keeps the first value that
  is not \<open>undefined\<close>.
\<close>

definition getField :: "parsedRecord \<Rightarrow> string option \<Rightarrow> error + jsval" where
  "getField parsedRecord path =
     (let v = foldl (\<lambda>acc entry. if acc = JUndefined then get entry path else acc)
                JUndefined
                [JObj (Keys parsedRecord), JObj (NewImage parsedRecord), JObj (OldImage parsedRecord)]
      in if v = JUndefined then Inl (FieldNotFoundError parsedRecord path) else Inr v)"

text \<open>\<open>paths.map(path => getField(parsedRecord, path))\<close>: the first failure throws.\<close>

fun mapGetField :: "parsedRecord \<Rightarrow> string list \<Rightarrow> error + jsval list" where
  "mapGetField parsedRecord [] = Inr []"
| "mapGetField parsedRecord (p # ps) =
     andThen (getField parsedRecord (Some p))
       (\<lambda>v. andThen (mapGetField parsedRecord ps) (\<lambda>vs. Inr (v # vs)))"

fun assembleField :: "parsedRecord \<Rightarrow> paths option \<Rightarrow> string \<Rightarrow> error + jsval" where
  "assembleField parsedRecord (Some (Multi ps)) separator =
     andThen (mapGetField parsedRecord ps) (\<lambda>vs. Inr (JStr (join vs separator)))"
| "assembleField parsedRecord (Some (Single p)) separator = getField parsedRecord (Some p)"
| "assembleField parsedRecord None separator = getField parsedRecord None"

section \<open>Action descriptors, batches and configuration\<close>

text \<open>
  The action descriptor. An attribute that the object does not have is \<open>None\<close>.
  The version is stored only after it has passed validation as a number.
\<close>

record actionDescriptor =
  d_index :: string
  d_type :: "jsval option"
  d_id :: jsval
  d_parent :: "jsval option"
  d_version :: "int option"
  d_versionType :: "string option"

datatype bulkItem =
    IndexAction actionDescriptor
  | DeleteAction actionDescriptor
  | Document jsval

record metaEntry =
  meta_event :: "rawRecord \<times> parsedRecord"
  meta_action :: bulkItem
  meta_document :: jsval

record request =
  actions :: "bulkItem list"
  meta :: "metaEntry list"

record bulkRequest =
  body :: "bulkItem list"
  extra :: obj

text \<open>
  What an invocation does to the outside, in order: the hooks it runs and the
  submissions it makes, each submission with its outcome.
\<close>

datatype call =
    BeforeHookCall
  | RecordErrorHookCall error
  | BulkCall bulkRequest "error + jsval"
  | AfterHookCall jsval "metaEntry list"
  | ErrorHookCall error

type_synonym invocationContext = jsval

text \<open>
  The engine client's \<open>bulk\<close> method. Its first argument is the number of submissions
  made before this one in the invocation, so that a client may answer differently
  from one attempt to the next.
\<close>

type_synonym esclient = "nat \<Rightarrow> bulkRequest \<Rightarrow> error + jsval"

record elasticsearchOptions =
  bulk :: "obj option"
  client :: esclient

record retryOptions =
  retries :: "nat option"

text \<open>
  The handler options. A callback returns its value or throws (\<open>Inl\<close>); a hook called
  for its effect throws (\<open>Some\<close>) or not.
\<close>

record options =
  elasticsearch :: elasticsearchOptions
  separator :: "string option"
  indexPrefix :: "string option"
  pickFields :: "paths option"
  transformRecordHook :: "(jsval \<Rightarrow> jsval \<Rightarrow> error + jsval) option"
  idResolver :: "(jsval \<Rightarrow> jsval \<Rightarrow> error + jsval) option"
  idField :: "paths option"
  index :: "string option"
  indexField :: "paths option"
  type :: "string option"
  typeField :: "paths option"
  parentField :: "string option"
  versionResolver :: "(jsval \<Rightarrow> jsval \<Rightarrow> error + jsval) option"
  versionField :: "string option"
  retryOptions :: "retryOptions option"
  beforeHook :: "(streamEvent \<Rightarrow> invocationContext \<Rightarrow> error option) option"
  afterHook :: "(streamEvent \<Rightarrow> invocationContext \<Rightarrow> jsval \<Rightarrow> metaEntry list \<Rightarrow> error + jsval) option"
  errorHook :: "(streamEvent \<Rightarrow> invocationContext \<Rightarrow> error \<Rightarrow> error + jsval) option"
  recordErrorHook :: "(streamEvent \<Rightarrow> invocationContext \<Rightarrow> error \<Rightarrow> error option) option"

text \<open>Truthiness of an optional string option and of an optional field selection.\<close>

definition truthyStr :: "string option \<Rightarrow> bool" where
  "truthyStr s = (case s of None \<Rightarrow> False | Some x \<Rightarrow> x \<noteq> [])"

definition truthyPaths :: "paths option \<Rightarrow> bool" where
  "truthyPaths ps = (case ps of None \<Rightarrow> False | Some (Single p) \<Rightarrow> p \<noteq> [] | Some (Multi qs) \<Rightarrow> True)"

text \<open>
  Modelled from the spec: the schema \<open>VERSION\<close> of \<open>schemas.js\<close> is not among the
  sources. The spec has the version "validated to be numeric", and the tests reject the
  string \<open>'1'\<close> with "must be a number".
\<close>

definition VERSION :: "jsval \<Rightarrow> int option" where
  "VERSION v = (case v of JNum n \<Rightarrow> Some n | _ \<Rightarrow> None)"

text \<open>
  Modelled from the spec: the schema \<open>EVENT\<close> of \<open>schemas.js\<close> is not among the
  sources. The tests have \<open>eventName\<close> and \<open>dynamodb\<close> required in every record, and
  unknown members allowed.
\<close>

definition EVENT :: "streamEvent \<Rightarrow> bool" where
  "EVENT event = list_all (\<lambda>r. eventName r \<noteq> None \<and> dynamodb r \<noteq> None) (Records event)"

section \<open>ActionBuilder\<close>

definition buildDoc :: "parsedRecord \<Rightarrow> options \<Rightarrow> error + jsval" where
  "buildDoc parsedRecord opts =
     (let doc = (case pickFields opts of
                   Some ps \<Rightarrow> if truthyPaths (Some ps) then pick (JObj (NewImage parsedRecord)) ps
                              else JObj (NewImage parsedRecord)
                 | None \<Rightarrow> JObj (NewImage parsedRecord))
      in case transformRecordHook opts of
           Some hook \<Rightarrow> hook doc (JObj (OldImage parsedRecord))
         | None \<Rightarrow> Inr doc)"

definition theSeparator :: "options \<Rightarrow> string" where
  "theSeparator opts = (case separator opts of None \<Rightarrow> ''.'' | Some s \<Rightarrow> s)"

definition theIndexPrefix :: "options \<Rightarrow> string" where
  "theIndexPrefix opts = (case indexPrefix opts of None \<Rightarrow> [] | Some s \<Rightarrow> s)"

text \<open>Lines 26 to 32 of \<open>buildAction\<close>: the document id.\<close>

definition resolveId :: "parsedRecord \<Rightarrow> options \<Rightarrow> jsval \<Rightarrow> error + jsval" where
  "resolveId parsedRecord opts doc =
     (case idResolver opts of
        Some resolver \<Rightarrow> resolver doc (JObj (OldImage parsedRecord))
      | None \<Rightarrow>
          if truthyPaths (idField opts)
          then assembleField parsedRecord (idField opts) (theSeparator opts)
          else assembleField parsedRecord (Some (Multi (map fst (Keys parsedRecord))))
                 (theSeparator opts))"

text \<open>Lines 35 and 36: the index name.\<close>

definition resolveIndex :: "parsedRecord \<Rightarrow> options \<Rightarrow> error + string" where
  "resolveIndex parsedRecord opts =
     (case index opts of
        Some i \<Rightarrow>
          if i \<noteq> [] then Inr i
          else andThen (assembleField parsedRecord (indexField opts) (theSeparator opts))
                 (\<lambda>v. Inr (theIndexPrefix opts @ toStringJS v))
      | None \<Rightarrow>
          andThen (assembleField parsedRecord (indexField opts) (theSeparator opts))
            (\<lambda>v. Inr (theIndexPrefix opts @ toStringJS v)))"

text \<open>
  Lines 37 to 41: the value of \<open>_type\<close> before the blank one is deleted. A falsy
  \<open>typeField\<close> is itself the value of the \<open>&&\<close>.
\<close>

definition resolveType :: "parsedRecord \<Rightarrow> options \<Rightarrow> error + jsval" where
  "resolveType parsedRecord opts =
     (if truthyStr (type opts) then Inr (case type opts of Some t \<Rightarrow> JStr t | None \<Rightarrow> JUndefined)
      else if truthyPaths (typeField opts)
      then assembleField parsedRecord (typeField opts) (theSeparator opts)
      else Inr (case typeField opts of Some (Single p) \<Rightarrow> JStr p | _ \<Rightarrow> JUndefined))"

text \<open>Lines 54 to 58: the version, resolved and then validated.\<close>

definition resolveVersion :: "parsedRecord \<Rightarrow> options \<Rightarrow> jsval \<Rightarrow> error + jsval" where
  "resolveVersion parsedRecord opts doc =
     (case versionResolver opts of
        Some resolver \<Rightarrow> resolver doc (JObj (OldImage parsedRecord))
      | None \<Rightarrow> getField parsedRecord (versionField opts))"

definition validateVersion :: "options \<Rightarrow> jsval \<Rightarrow> error + int" where
  "validateVersion opts version =
     (case VERSION version of
        Some n \<Rightarrow> Inr n
      | None \<Rightarrow> Inl (ValidationError
                      (if truthyStr (versionField opts)
                       then (case versionField opts of Some f \<Rightarrow> f | None \<Rightarrow> [])
                       else ''resolved version'')))"

definition buildAction :: "parsedRecord \<Rightarrow> options \<Rightarrow> error + (jsval \<times> actionDescriptor)" where
  "buildAction parsedRecord opts =
     andThen (buildDoc parsedRecord opts) (\<lambda>doc.
     andThen (resolveId parsedRecord opts doc) (\<lambda>id.
     andThen (resolveIndex parsedRecord opts) (\<lambda>idx.
     andThen (resolveType parsedRecord opts) (\<lambda>ty.
     andThen (if truthyStr (parentField opts)
              then andThen (getField parsedRecord (parentField opts)) (\<lambda>p. Inr (Some p))
              else Inr None) (\<lambda>parent.
     andThen (if versionResolver opts \<noteq> None \<or> truthyStr (versionField opts)
              then andThen (resolveVersion parsedRecord opts doc) (\<lambda>version.
                   andThen (validateVersion opts version) (\<lambda>n. Inr (Some n)))
              else Inr None) (\<lambda>version.
       Inr (doc,
            \<lparr> d_index = idx,
              d_type = (if truthy ty then Some ty else None),
              d_id = id,
              d_parent = parent,
              d_version = version,
              d_versionType = (if version = None then None else Some ''external'') \<rparr>)))))))"

section \<open>BatchAssembler\<close>

text \<open>
  The body of the \<open>try\<close> in the reduce callback of \<open>buildRequest\<close>, for one record and
  the batch accumulated so far. Every step that may throw comes before the first push,
  so a record that fails leaves the batch as it was.
\<close>

definition buildRequestStep :: "options \<Rightarrow> rawRecord \<Rightarrow> request \<Rightarrow> error + request" where
  "buildRequestStep opts record acc =
     andThen (parseRecord record) (\<lambda>parsedRecord.
     andThen (buildAction parsedRecord opts) (\<lambda>(doc, actionDescriptionObj).
       if truthy doc then
         (if eventName record = Some ''INSERT'' \<or> eventName record = Some ''MODIFY'' then
            Inr \<lparr> actions = actions acc @ [IndexAction actionDescriptionObj, Document doc],
                  meta = meta acc @ [\<lparr> meta_event = (record, parsedRecord),
                                        meta_action = IndexAction actionDescriptionObj,
                                        meta_document = doc \<rparr>] \<rparr>
          else if eventName record = Some ''REMOVE'' then
            (let incremented =
                   (case d_version actionDescriptionObj of
                      Some version \<Rightarrow> actionDescriptionObj \<lparr> d_version := Some (version + 1) \<rparr>
                    | None \<Rightarrow> actionDescriptionObj)
             in Inr \<lparr> actions = actions acc @ [DeleteAction incremented],
                      meta = meta acc @ [\<lparr> meta_event = (record, parsedRecord),
                                            meta_action = DeleteAction incremented,
                                            meta_document = doc \<rparr>] \<rparr>)
          else Inl (UnknownEventNameError record))
       else Inr acc))"

text \<open>
  The reduce over the records, with the \<open>catch\<close>: an error goes to \<open>recordErrorHook\<close>
  when there is one, and the loop goes on unless the hook throws; without the hook the
  error ends the batch.
\<close>

fun buildRequestLoop ::
  "streamEvent \<Rightarrow> invocationContext \<Rightarrow> options \<Rightarrow> rawRecord list \<Rightarrow> request \<Rightarrow> call list
     \<Rightarrow> (error + request) \<times> call list" where
  "buildRequestLoop event context opts [] acc trace = (Inr acc, trace)"
| "buildRequestLoop event context opts (record # records) acc trace =
     (case buildRequestStep opts record acc of
        Inr acc' \<Rightarrow> buildRequestLoop event context opts records acc' trace
      | Inl err \<Rightarrow>
          (case recordErrorHook opts of
             Some hook \<Rightarrow>
               (case hook event context err of
                  None \<Rightarrow> buildRequestLoop event context opts records acc
                            (trace @ [RecordErrorHookCall err])
                | Some thrown \<Rightarrow> (Inl thrown, trace @ [RecordErrorHookCall err]))
           | None \<Rightarrow> (Inl err, trace)))"

definition buildRequest ::
  "streamEvent \<Rightarrow> invocationContext \<Rightarrow> options \<Rightarrow> (error + request) \<times> call list" where
  "buildRequest event context opts =
     buildRequestLoop event context opts (Records event) \<lparr> actions = [], meta = [] \<rparr> []"

section \<open>DeliveryCoordinator\<close>

text \<open>
  Modelled from the spec: the retry driver is the package \<open>p-retry\<close>, a collaborator
  outside the sources. By its contract it invokes the operation up to \<open>retries + 1\<close>
  times, one attempt after the other, stops at the first success, and fails with the
  error of the last attempt. The operation is given the attempt number, from 1. The
  result is the list of the outcomes of the attempts made; the last one is the outcome
  of the whole. The backoff between attempts is time, which the model does not have.
\<close>

fun retryFrom :: "(nat \<Rightarrow> error + 'a) \<Rightarrow> nat \<Rightarrow> nat \<Rightarrow> (error + 'a) list" where
  "retryFrom operation attempt 0 = [operation attempt]"
| "retryFrom operation attempt (Suc left) =
     (case operation attempt of
        Inr v \<Rightarrow> [Inr v]
      | Inl e \<Rightarrow> Inl e # retryFrom operation (Suc attempt) left)"

definition retry :: "(nat \<Rightarrow> error + 'a) \<Rightarrow> nat \<Rightarrow> (error + 'a) list" where
  "retry operation n = retryFrom operation 1 n"

definition DEFAULT_RETRY_COUNT :: nat where
  "DEFAULT_RETRY_COUNT = 0"

text \<open>\<open>{ retries: DEFAULT_RETRY_COUNT, ...options.retryOptions }\<close>\<close>

definition theRetries :: "options \<Rightarrow> nat" where
  "theRetries opts =
     (case retryOptions opts of
        None \<Rightarrow> DEFAULT_RETRY_COUNT
      | Some ro \<Rightarrow> (case retries ro of None \<Rightarrow> DEFAULT_RETRY_COUNT | Some n \<Rightarrow> n))"

definition emptyResult :: jsval where
  "emptyResult = JObj [(''took'', JNum 0), (''errors'', JBool False), (''items'', JArr [])]"

text \<open>\<open>{ ...bulkOpts, body: parsedEvent.actions }\<close>, where \<open>bulkOpts\<close> defaults to \<open>{}\<close>.\<close>

definition bulkRequestOf :: "options \<Rightarrow> request \<Rightarrow> bulkRequest" where
  "bulkRequestOf opts parsedEvent =
     \<lparr> body = actions parsedEvent,
       extra = (case bulk (elasticsearch opts) of None \<Rightarrow> [] | Some bulkOpts \<Rightarrow> bulkOpts) \<rparr>"

text \<open>
  Lines 37 to 53 of \<open>handle\<close>: the submission under the retry driver, then
  \<open>afterHook\<close> on the result. The outcome and the calls made, in order.
\<close>

definition deliver ::
  "options \<Rightarrow> streamEvent \<Rightarrow> invocationContext \<Rightarrow> request \<Rightarrow> (error + jsval) \<times> call list" where
  "deliver opts event context parsedEvent =
     (let attempts = retry (\<lambda>attempt. client (elasticsearch opts) (attempt - 1)
                                       (bulkRequestOf opts parsedEvent))
                       (theRetries opts);
          t2 = map (BulkCall (bulkRequestOf opts parsedEvent)) attempts
      in case last attempts of
           Inl err \<Rightarrow> (Inl err, t2)
         | Inr result \<Rightarrow>
             (case afterHook opts of
                Some hook \<Rightarrow>
                  (case hook event context result (meta parsedEvent) of
                     Inl err \<Rightarrow> (Inl err, t2 @ [AfterHookCall result (meta parsedEvent)])
                   | Inr hookResult \<Rightarrow>
                       (Inr (if hookResult \<noteq> JUndefined then hookResult else result),
                        t2 @ [AfterHookCall result (meta parsedEvent)]))
              | None \<Rightarrow> (Inr result, t2)))"

text \<open>
  The body of the \<open>try\<close> in \<open>handle\<close>: its outcome, a result or the error thrown, and
  the calls made on the way.
\<close>

definition handleTry ::
  "options \<Rightarrow> streamEvent \<Rightarrow> invocationContext \<Rightarrow> (error + jsval) \<times> call list" where
  "handleTry opts event context =
     (case (case beforeHook opts of
              Some hook \<Rightarrow> (hook event context, [BeforeHookCall])
            | None \<Rightarrow> (None, [])) of
        (Some thrown, t0) \<Rightarrow> (Inl thrown, t0)
      | (None, t0) \<Rightarrow>
          if \<not> EVENT event then (Inl (ValidationError ''event''), t0)
          else
            (case buildRequest event context opts of
               (Inl err, t1) \<Rightarrow> (Inl err, t0 @ t1)
             | (Inr parsedEvent, t1) \<Rightarrow>
                 if length (actions parsedEvent) = 0 then (Inr emptyResult, t0 @ t1)
                 else (case deliver opts event context parsedEvent of
                         (outcome, t2) \<Rightarrow> (outcome, t0 @ t1 @ t2))))"

text \<open>
  \<open>handle\<close>: the \<open>catch\<close> hands whatever the body threw to \<open>errorHook\<close> when there is
  one, and the invocation ends as the hook does; without the hook the error is thrown
  again.
\<close>

definition handle ::
  "options \<Rightarrow> streamEvent \<Rightarrow> invocationContext \<Rightarrow> (error + jsval) \<times> call list" where
  "handle opts event context =
     (case handleTry opts event context of
        (Inr result, trace) \<Rightarrow> (Inr result, trace)
      | (Inl err, trace) \<Rightarrow>
          (case errorHook opts of
             Some hook \<Rightarrow> (hook event context err, trace @ [ErrorHookCall err])
           | None \<Rightarrow> (Inl err, trace)))"

text \<open>Observations on the calls of an invocation.\<close>

fun isBulkCall :: "call \<Rightarrow> bool" where
  "isBulkCall (BulkCall req outcome) = True"
| "isBulkCall c = False"

fun isAfterHookCall :: "call \<Rightarrow> bool" where
  "isAfterHookCall (AfterHookCall result metas) = True"
| "isAfterHookCall c = False"

definition bulkCalls :: "call list \<Rightarrow> nat" where
  "bulkCalls trace = length (filter isBulkCall trace)"

section \<open>Example inputs and auxiliary predicates\<close>

text \<open>
  Concrete clients, options, records and batches, after the fixtures of the
  repository's tests, on which the properties below are evaluated; and the predicates
  in which the properties are stated.
\<close>

definition okClient :: esclient where
  "okClient n req = Inr (JObj [(''took'', JNum 1), (''errors'', JBool False), (''items'', JArr [])])"

definition failingClient :: esclient where
  "failingClient n req = Inl (Thrown (JStr ''indexing error''))"

definition testOptions :: options where
  "testOptions =
     \<lparr> elasticsearch = \<lparr> bulk = None, client = okClient \<rparr>,
       separator = None, indexPrefix = None, pickFields = None, transformRecordHook = None,
       idResolver = None, idField = None, index = Some ''index'', indexField = None,
       type = Some ''type'', typeField = None, parentField = None, versionResolver = None,
       versionField = None, retryOptions = None, beforeHook = None, afterHook = None,
       errorHook = None, recordErrorHook = None \<rparr>"

definition testRecord :: "string \<Rightarrow> (string \<times> attr) list \<Rightarrow> rawRecord" where
  "testRecord name keys =
     \<lparr> eventName = Some name, eventSource = Some ''aws:dynamodb'',
       dynamodb = Some \<lparr> wire_Keys = keys,
                         wire_NewImage = (if name = ''REMOVE'' then None else Some keys),
                         wire_OldImage = (if name = ''INSERT'' then None else Some keys) \<rparr> \<rparr>"

definition twoKeys :: "(string \<times> attr) list" where
  "twoKeys = [(''field1'', AS ''a''), (''field2'', AS ''b'')]"

definition searchRecord :: parsedRecord where
  "searchRecord =
     \<lparr> NewImage = [(''a'', JStr ''x''), (''b'', JStr ''new'')],
       OldImage = [(''a'', JStr ''y''), (''b'', JStr ''z''), (''c'', JStr ''old'')],
       Keys = [(''a'', JStr ''key'')] \<rparr>"

definition xyRecord :: parsedRecord where
  "xyRecord = \<lparr> NewImage = [], OldImage = [], Keys = [(''x'', JStr ''a''), (''y'', JStr ''b'')] \<rparr>"

definition numRecord :: parsedRecord where
  "numRecord = \<lparr> NewImage = [(''n'', JNum 5)], OldImage = [], Keys = [] \<rparr>"

definition twoKeysRecord :: parsedRecord where
  "twoKeysRecord = \<lparr> NewImage = [(''field1'', JStr ''a''), (''field2'', JStr ''b'')], OldImage = [],
      Keys = [(''field1'', JStr ''a''), (''field2'', JStr ''b'')] \<rparr>"

text \<open>
  The id as the specification words it for a record with neither \<open>idField\<close> nor
  \<open>idResolver\<close>: the names of the key fields, joined by the separator.
\<close>

definition spec_keyNamesJoined :: "parsedRecord \<Rightarrow> string \<Rightarrow> jsval" where
  "spec_keyNamesJoined pr sep = JStr (joinStrings sep (map fst (Keys pr)))"

definition blankTypeRecord :: parsedRecord where
  "blankTypeRecord = \<lparr> NewImage = [(''k'', JStr ''a''), (''t'', JStr [])], OldImage = [],
      Keys = [(''k'', JStr ''a'')] \<rparr>"

text \<open>Descriptors and batch items whose type attribute is absent or holds a truthy value.\<close>

definition typeAbsentOrTruthy :: "actionDescriptor \<Rightarrow> bool" where
  "typeAbsentOrTruthy a = (case d_type a of None \<Rightarrow> True | Some v \<Rightarrow> truthy v)"

fun itemTypeOk :: "bulkItem \<Rightarrow> bool" where
  "itemTypeOk (IndexAction a) = typeAbsentOrTruthy a"
| "itemTypeOk (DeleteAction a) = typeAbsentOrTruthy a"
| "itemTypeOk (Document d) = True"

definition twoKeysEvent :: streamEvent where
  "twoKeysEvent = \<lparr> Records = [testRecord ''INSERT'' twoKeys] \<rparr>"

definition untypedDescriptor :: actionDescriptor where
  "untypedDescriptor = \<lparr> d_index = ''index'', d_type = None, d_id = JStr ''a.b'',
            d_parent = None, d_version = None, d_versionType = None \<rparr>"

definition removeRecord :: rawRecord where
  "removeRecord = testRecord ''REMOVE'' [(''k'', AS ''a''), (''v'', AN 41)]"

definition removeParsed :: parsedRecord where
  "removeParsed = \<lparr> NewImage = [], OldImage = [(''k'', JStr ''a''), (''v'', JNum 41)],
      Keys = [(''k'', JStr ''a''), (''v'', JNum 41)] \<rparr>"

definition versionOptions :: options where
  "versionOptions = testOptions \<lparr> versionField := Some ''v'' \<rparr>"

definition versionDescriptor :: "int \<Rightarrow> actionDescriptor" where
  "versionDescriptor n = \<lparr> d_index = ''index'', d_type = Some (JStr ''type''), d_id = JStr ''a.41'',
      d_parent = None, d_version = Some n, d_versionType = Some ''external'' \<rparr>"

text \<open>
  \<open>beforeHook\<close> is absent or returns without throwing; the calls made up to that
  point; a record whose document resolves falsy.
\<close>

definition beforeHookPasses :: "options \<Rightarrow> streamEvent \<Rightarrow> invocationContext \<Rightarrow> bool" where
  "beforeHookPasses opts event ctx =
     (case beforeHook opts of None \<Rightarrow> True | Some hook \<Rightarrow> hook event ctx = None)"

definition beforeTrace :: "options \<Rightarrow> call list" where
  "beforeTrace opts = (case beforeHook opts of None \<Rightarrow> [] | Some hook \<Rightarrow> [BeforeHookCall])"

definition docFalsy :: "options \<Rightarrow> rawRecord \<Rightarrow> bool" where
  "docFalsy opts record =
     (case parseRecord record of
        Inl e \<Rightarrow> False
      | Inr pr \<Rightarrow> (case buildAction pr opts of Inl e \<Rightarrow> False | Inr (doc, act) \<Rightarrow> \<not> truthy doc))"

definition recoverHook :: "streamEvent \<Rightarrow> invocationContext \<Rightarrow> error \<Rightarrow> error + jsval" where
  "recoverHook event ctx err = Inr (JStr ''recovered'')"

definition throwingBeforeHook :: "streamEvent \<Rightarrow> invocationContext \<Rightarrow> error option" where
  "throwingBeforeHook event ctx = Some (Thrown (JStr ''before''))"

definition invalidEvent :: streamEvent where
  "invalidEvent = \<lparr> Records = [(testRecord ''INSERT'' twoKeys) \<lparr> eventName := None \<rparr>] \<rparr>"

definition failingOptions :: "retryOptions option \<Rightarrow> options" where
  "failingOptions ro =
     testOptions \<lparr> elasticsearch := \<lparr> bulk = None, client = failingClient \<rparr>, retryOptions := ro \<rparr>"

definition nullTransform :: "jsval \<Rightarrow> jsval \<Rightarrow> error + jsval" where
  "nullTransform doc old = Inr JNull"

definition markAfter :: "streamEvent \<Rightarrow> invocationContext \<Rightarrow> jsval \<Rightarrow> metaEntry list \<Rightarrow> error + jsval" where
  "markAfter event ctx result metas = Inr (JStr ''after'')"

definition skipOptions :: options where
  "skipOptions = testOptions \<lparr> transformRecordHook := Some nullTransform, afterHook := Some markAfter \<rparr>"

definition afterOptions :: options where
  "afterOptions = testOptions \<lparr> afterHook := Some markAfter \<rparr>"

definition typedDescriptor :: actionDescriptor where
  "typedDescriptor = \<lparr> d_index = ''index'', d_type = Some (JStr ''type''), d_id = JStr ''a.b'',
      d_parent = None, d_version = None, d_versionType = None \<rparr>"

definition twoKeysRequest :: request where
  "twoKeysRequest =
     \<lparr> actions = [IndexAction typedDescriptor, Document (JObj (NewImage twoKeysRecord))],
       meta = [\<lparr> meta_event = (testRecord ''INSERT'' twoKeys, twoKeysRecord),
                 meta_action = IndexAction typedDescriptor,
                 meta_document = JObj (NewImage twoKeysRecord) \<rparr>] \<rparr>"

definition okResult :: jsval where
  "okResult = JObj [(''took'', JNum 1), (''errors'', JBool False), (''items'', JArr [])]"

section \<open>Properties\<close>

lemma pick_example:
  "pick (JObj [(''a'', JNum 1), (''b'', JObj [(''c'', JNum 2), (''d'', JNum 3)]), (''e'', JNum 4)])
        (Multi [''a'', ''b.c''])
   = JObj [(''a'', JNum 1), (''b'', JObj [(''c'', JNum 2)])]"
  by (simp add: pick_def hasIn_def castPath_def isKey_def baseGet_def)

subsection \<open>Sequencing\<close>

lemma andThen_simps [simp]:
  "andThen (Inl e) f = Inl e" "andThen (Inr v) f = f v"
  by (simp_all add: andThen_def)

lemma andThen_Inr_iff: "andThen r f = Inr y \<longleftrightarrow> (\<exists>v. r = Inr v \<and> f v = Inr y)"
  by (cases r) simp_all

subsection \<open>FieldResolver\<close>

text \<open>
  C8. \<open>getField\<close> returns the value of the path in \<open>Keys\<close> when that is defined,
  else its value in \<open>NewImage\<close> when that is defined, else its value in \<open>OldImage\<close>
  when that is defined. It fails exactly when the path is undefined in all three, and
  the failure is the \<open>FieldNotFoundError\<close> that carries the record and the path.
\<close>

theorem getField_search_order:
  "getField pr path =
     (if get (JObj (Keys pr)) path \<noteq> JUndefined then Inr (get (JObj (Keys pr)) path)
      else if get (JObj (NewImage pr)) path \<noteq> JUndefined then Inr (get (JObj (NewImage pr)) path)
      else if get (JObj (OldImage pr)) path \<noteq> JUndefined then Inr (get (JObj (OldImage pr)) path)
      else Inl (FieldNotFoundError pr path))
   \<and> ((\<exists>e. getField pr path = Inl e) =
        (get (JObj (Keys pr)) path = JUndefined \<and> get (JObj (NewImage pr)) path = JUndefined
         \<and> get (JObj (OldImage pr)) path = JUndefined))
   \<and> ((\<exists>e. getField pr path = Inl e) = (getField pr path = Inl (FieldNotFoundError pr path)))"
  by (simp add: getField_def Let_def)

theorem getField_search_order_witness:
  "getField searchRecord (Some ''a'') = Inr (JStr ''key'')
   \<and> getField searchRecord (Some ''b'') = Inr (JStr ''new'')
   \<and> getField searchRecord (Some ''c'') = Inr (JStr ''old'')
   \<and> getField searchRecord (Some ''d'') = Inl (FieldNotFoundError searchRecord (Some ''d''))"
proof -
  have k: "Keys searchRecord = [(''a'', JStr ''key'')]"
    and n: "NewImage searchRecord = [(''a'', JStr ''x''), (''b'', JStr ''new'')]"
    and old: "OldImage searchRecord = [(''a'', JStr ''y''), (''b'', JStr ''z''), (''c'', JStr ''old'')]"
    by (simp_all add: searchRecord_def)
  have g: "get (JObj kvs) (Some [c]) = (case lookup kvs [c] of Some v \<Rightarrow> v | None \<Rightarrow> JUndefined)"
    if "c \<noteq> CHR ''.''" for kvs c
    using that by (simp add: get_def baseGet_def castPath_def isKey_def)
  from getField_search_order [of searchRecord "Some ''a''"]
    getField_search_order [of searchRecord "Some ''b''"]
    getField_search_order [of searchRecord "Some ''c''"]
    getField_search_order [of searchRecord "Some ''d''"]
  show ?thesis
    by (simp add: k n old g)
qed

lemma get_own_key: "lookup kvs k = Some v \<Longrightarrow> get (JObj kvs) (Some k) = v"
  by (simp add: get_def baseGet_def castPath_def isKey_def)

lemma mapGetField_all:
  "list_all2 (\<lambda>p v. getField pr (Some p) = Inr v) ps vs \<Longrightarrow> mapGetField pr ps = Inr vs"
  by (induction ps vs rule: list_all2_induct) simp_all

lemma mapGetField_first_failure:
  "list_all2 (\<lambda>p v. getField pr (Some p) = Inr v) qs vs \<Longrightarrow> getField pr (Some p) = Inl e
   \<Longrightarrow> mapGetField pr (qs @ p # rs) = Inl e"
  by (induction qs vs rule: list_all2_induct) simp_all

lemma xyRecord_x: "getField xyRecord (Some ''x'') = Inr (JStr ''a'')"
  by (simp add: getField_def xyRecord_def get_own_key)

lemma xyRecord_y: "getField xyRecord (Some ''y'') = Inr (JStr ''b'')"
  by (simp add: getField_def xyRecord_def get_own_key)

lemma xyRecord_nope:
  "getField xyRecord (Some ''nope'') = Inl (FieldNotFoundError xyRecord (Some ''nope''))"
  by (simp add: getField_def xyRecord_def get_def baseGet_def castPath_def isKey_def)

lemma numRecord_n: "getField numRecord (Some ''n'') = Inr (JNum 5)"
  by (simp add: getField_def numRecord_def get_own_key get_def baseGet_def castPath_def isKey_def)

text \<open>
  C9. Given an ordered list of paths, \<open>assembleField\<close> resolves each path on its own:
  when every path resolves, the result is the string of the resolved values joined
  with the separator; when a path fails after the ones before it resolved, the result
  is that failure. The separator stands between neighbours. Given a single path, the
  result is what \<open>getField\<close> gives, the value as it is. With \<open>indexField\<close>
  \<open>['x', 'y']\<close> on the keys \<open>{x: 'a', y: 'b'}\<close> the index name is \<open>'ab'\<close> under the empty
  separator and \<open>'a.b'\<close> under the default one.
\<close>

theorem assembleField_join:
  "(list_all2 (\<lambda>p v. getField pr (Some p) = Inr v) ps vs
      \<longrightarrow> assembleField pr (Some (Multi ps)) sep = Inr (JStr (join vs sep)))
   \<and> (list_all2 (\<lambda>p v. getField pr (Some p) = Inr v) qs ws \<and> getField pr (Some p) = Inl e
      \<longrightarrow> assembleField pr (Some (Multi (qs @ p # rs))) sep = Inl e)
   \<and> join [JStr a, JStr b] sep = a @ sep @ b
   \<and> assembleField pr (Some (Single p)) sep = getField pr (Some p)
   \<and> resolveIndex xyRecord
        (testOptions \<lparr> index := None, indexField := Some (Multi [''x'', ''y'']), separator := Some [] \<rparr>)
      = Inr ''ab''
   \<and> resolveIndex xyRecord
        (testOptions \<lparr> index := None, indexField := Some (Multi [''x'', ''y'']) \<rparr>)
      = Inr ''a.b''"
proof -
  have multi: "assembleField xyRecord (Some (Multi [''x'', ''y''])) s = Inr (JStr (''a'' @ s @ ''b''))" for s
    by (simp add: xyRecord_x xyRecord_y join_def joinElem_def)
  have "resolveIndex xyRecord
          (testOptions \<lparr> index := None, indexField := Some (Multi [''x'', ''y'']), separator := Some [] \<rparr>)
        = Inr ''ab''"
    by (simp add: resolveIndex_def testOptions_def theSeparator_def theIndexPrefix_def multi
        del: assembleField.simps)
  moreover have "resolveIndex xyRecord
          (testOptions \<lparr> index := None, indexField := Some (Multi [''x'', ''y'']) \<rparr>)
        = Inr ''a.b''"
    by (simp add: resolveIndex_def testOptions_def theSeparator_def theIndexPrefix_def multi
        del: assembleField.simps)
  moreover have "join [JStr a, JStr b] sep = a @ sep @ b"
    by (simp add: join_def joinElem_def)
  moreover have "list_all2 (\<lambda>p v. getField pr (Some p) = Inr v) ps vs
      \<longrightarrow> assembleField pr (Some (Multi ps)) sep = Inr (JStr (join vs sep))"
    by (simp add: mapGetField_all)
  moreover have "list_all2 (\<lambda>p v. getField pr (Some p) = Inr v) qs ws \<and> getField pr (Some p) = Inl e
      \<longrightarrow> assembleField pr (Some (Multi (qs @ p # rs))) sep = Inl e"
    using mapGetField_first_failure [of pr qs ws p e rs] by auto
  moreover have "assembleField pr (Some (Single p)) sep = getField pr (Some p)"
    by simp
  ultimately show ?thesis
    by blast
qed

theorem assembleField_join_witness:
  "assembleField xyRecord (Some (Multi [''x'', ''y''])) ''-'' = Inr (JStr ''a-b'')
   \<and> assembleField xyRecord (Some (Multi [''x'', ''nope'', ''y''])) ''-''
       = Inl (FieldNotFoundError xyRecord (Some ''nope''))
   \<and> assembleField numRecord (Some (Single ''n'')) ''-'' = Inr (JNum 5)"
proof -
  have h1: "list_all2 (\<lambda>p v. getField xyRecord (Some p) = Inr v) [''x'', ''y''] [JStr ''a'', JStr ''b'']"
    by (simp add: xyRecord_x xyRecord_y)
  have h2: "list_all2 (\<lambda>p v. getField xyRecord (Some p) = Inr v) [''x''] [JStr ''a'']"
    by (simp add: xyRecord_x)
  note t = assembleField_join [where pr = xyRecord and ps = "[''x'', ''y'']"
      and vs = "[JStr ''a'', JStr ''b'']" and sep = "''-''" and qs = "[''x'']" and ws = "[JStr ''a'']"
      and p = "''nope''" and e = "FieldNotFoundError xyRecord (Some ''nope'')" and rs = "[''y'']"]
  from t h1 have a: "assembleField xyRecord (Some (Multi [''x'', ''y''])) ''-''
      = Inr (JStr (join [JStr ''a'', JStr ''b''] ''-''))"
    by blast
  from t h2 xyRecord_nope have b: "assembleField xyRecord (Some (Multi ([''x''] @ ''nope'' # [''y'']))) ''-''
       = Inl (FieldNotFoundError xyRecord (Some ''nope''))"
    by blast
  have c: "assembleField numRecord (Some (Single ''n'')) ''-'' = Inr (JNum 5)"
    using assembleField_join [where pr = numRecord and sep = "''-''" and p = "''n''"] numRecord_n
    by simp
  from a b c show ?thesis by (simp add: join_def joinElem_def del: assembleField.simps)
qed

subsection \<open>ActionBuilder: the document id\<close>

lemma unmarshall_defined: "unmarshall a \<noteq> JUndefined"
  by (cases a) simp_all

lemma unmarshallMap_defined: "(k, v) \<in> set (unmarshallMap kvs) \<Longrightarrow> v \<noteq> JUndefined"
  by (auto simp: unmarshallMap_def unmarshall_defined)

lemma lookup_distinct:
  "distinct (map fst kvs) \<Longrightarrow> (k, v) \<in> set kvs \<Longrightarrow> lookup kvs k = Some v"
  by (induction kvs) (auto simp: rev_image_eqI)

lemma getField_key:
  assumes "distinct (map fst (Keys pr))" "(k, v) \<in> set (Keys pr)" "v \<noteq> JUndefined"
  shows "getField pr (Some k) = Inr v"
  using assms by (simp add: getField_def get_own_key lookup_distinct)

lemma mapGetField_keys:
  assumes "distinct (map fst (Keys pr))" "\<forall>kv \<in> set (Keys pr). snd kv \<noteq> JUndefined"
    and "set kvs \<subseteq> set (Keys pr)"
  shows "mapGetField pr (map fst kvs) = Inr (map snd kvs)"
  using assms(3)
proof (induction kvs)
  case Nil
  then show ?case by simp
next
  case (Cons kv kvs)
  obtain k v where kv: "kv = (k, v)" by (cases kv)
  with Cons.prems assms have "getField pr (Some k) = Inr v"
    by (intro getField_key) auto
  with Cons kv show ?case by simp
qed

lemma parse_twoKeys: "parseRecord (testRecord ''INSERT'' twoKeys) = Inr twoKeysRecord"
  by (simp add: parseRecord_def testRecord_def twoKeys_def twoKeysRecord_def unmarshallMap_def)

lemma twoKeys_buildAction:
  "buildAction twoKeysRecord testOptions =
     Inr (JObj (NewImage twoKeysRecord),
          \<lparr> d_index = ''index'', d_type = Some (JStr ''type''), d_id = JStr ''a.b'',
            d_parent = None, d_version = None, d_versionType = None \<rparr>)"
  by (simp add: buildAction_def buildDoc_def resolveId_def resolveIndex_def resolveType_def
      testOptions_def truthyStr_def truthyPaths_def theSeparator_def twoKeysRecord_def
      getField_def get_own_key join_def joinElem_def)

text \<open>
  C1, as stated, fails. The record with the keys \<open>{field1: 'a', field2: 'b'}\<close>, under
  options with neither \<open>idField\<close> nor \<open>idResolver\<close> and the default separator, gets
  the id \<open>'a.b'\<close>, made of the values of the key fields; the names joined would be
  \<open>'field1.field2'\<close>.
\<close>

theorem id_from_key_names_counterexample:
  "parseRecord (testRecord ''INSERT'' twoKeys) = Inr twoKeysRecord
   \<and> idResolver testOptions = None \<and> idField testOptions = None
   \<and> map_sum id (\<lambda>r. d_id (snd r)) (buildAction twoKeysRecord testOptions) = Inr (JStr ''a.b'')
   \<and> spec_keyNamesJoined twoKeysRecord (theSeparator testOptions) = JStr ''field1.field2''
   \<and> map_sum id (\<lambda>r. d_id (snd r)) (buildAction twoKeysRecord testOptions)
       \<noteq> Inr (spec_keyNamesJoined twoKeysRecord (theSeparator testOptions))"
  by (simp add: twoKeys_buildAction parse_twoKeys)
     (simp add: spec_keyNamesJoined_def twoKeysRecord_def testOptions_def theSeparator_def)

text \<open>
  C1, amended. For every decoded record (its key names distinct, as the properties of
  an object are), when neither \<open>idField\<close> nor \<open>idResolver\<close> is configured, the id in
  the action descriptor is the string of the values of the record's key fields, in
  the order of the keys, joined by the configured separator: each key name is used as
  a path, and \<open>getField\<close> resolves it to the value it has in \<open>Keys\<close>.
\<close>

theorem id_from_key_values:
  assumes "parseRecord record = Inr pr"
    and "distinct (map fst (Keys pr))"
    and "idResolver opts = None" and "\<not> truthyPaths (idField opts)"
    and "buildAction pr opts = Inr (doc, act)"
  shows "d_id act = JStr (join (map snd (Keys pr)) (theSeparator opts))"
proof -
  from assms(1) have "\<forall>kv \<in> set (Keys pr). snd kv \<noteq> JUndefined"
    by (auto simp: parseRecord_def split: option.splits dest: unmarshallMap_defined)
  with assms(2) have "mapGetField pr (map fst (Keys pr)) = Inr (map snd (Keys pr))"
    by (intro mapGetField_keys) auto
  then have "resolveId pr opts doc' = Inr (JStr (join (map snd (Keys pr)) (theSeparator opts)))" for doc'
    using assms(3,4) by (simp add: resolveId_def)
  with assms(5) show ?thesis
    by (auto simp: buildAction_def andThen_Inr_iff)
qed

theorem id_from_key_values_witness:
  "d_id \<lparr> d_index = ''index'', d_type = Some (JStr ''type''), d_id = JStr ''a.b'',
          d_parent = None, d_version = None, d_versionType = None \<rparr>
     = JStr (join (map snd (Keys twoKeysRecord)) (theSeparator testOptions))
   \<and> join (map snd (Keys twoKeysRecord)) (theSeparator testOptions) = ''a.b''"
proof -
  have "distinct (map fst (Keys twoKeysRecord))"
    by (simp add: twoKeysRecord_def)
  moreover have "idResolver testOptions = None" "\<not> truthyPaths (idField testOptions)"
    by (simp_all add: testOptions_def truthyPaths_def)
  ultimately have "d_id \<lparr> d_index = ''index'', d_type = Some (JStr ''type''), d_id = JStr ''a.b'',
          d_parent = None, d_version = None, d_versionType = None \<rparr>
     = JStr (join (map snd (Keys twoKeysRecord)) (theSeparator testOptions))"
    using id_from_key_values [OF parse_twoKeys _ _ _ twoKeys_buildAction] by blast
  then show ?thesis by simp
qed

subsection \<open>ActionBuilder: the type attribute\<close>

lemma buildAction_type:
  assumes "buildAction pr opts = Inr (doc, act)"
  shows "\<exists>ty. resolveType pr opts = Inr ty \<and> d_type act = (if truthy ty then Some ty else None)"
  using assms by (auto simp: buildAction_def andThen_Inr_iff)

lemma buildAction_typeOk:
  "buildAction pr opts = Inr (doc, act) \<Longrightarrow> typeAbsentOrTruthy act"
  by (auto dest!: buildAction_type simp: typeAbsentOrTruthy_def)

lemma step_typeOk:
  assumes "buildRequestStep opts record acc = Inr acc'" "list_all itemTypeOk (actions acc)"
  shows "list_all itemTypeOk (actions acc')"
  using assms
  by (auto simp: buildRequestStep_def andThen_Inr_iff Let_def typeAbsentOrTruthy_def
      split: if_splits option.splits dest!: buildAction_typeOk)

lemma loop_typeOk:
  "buildRequestLoop event ctx opts records acc trace = (Inr req, t)
   \<Longrightarrow> list_all itemTypeOk (actions acc) \<Longrightarrow> list_all itemTypeOk (actions req)"
proof (induction records arbitrary: acc trace)
  case Nil
  then show ?case by simp
next
  case (Cons r rs)
  show ?case
  proof (cases "buildRequestStep opts r acc")
    case (Inr acc')
    with Cons.prems have "buildRequestLoop event ctx opts rs acc' trace = (Inr req, t)"
      by simp
    moreover from Inr Cons.prems(2) have "list_all itemTypeOk (actions acc')"
      by (rule step_typeOk)
    ultimately show ?thesis by (rule Cons.IH)
  next
    case (Inl err)
    with Cons.prems(1) obtain hook where "recordErrorHook opts = Some hook"
      "hook event ctx err = None"
      "buildRequestLoop event ctx opts rs acc (trace @ [RecordErrorHookCall err]) = (Inr req, t)"
      by (auto split: option.splits)
    with Cons.IH Cons.prems(2) show ?thesis by blast
  qed
qed

lemma twoKeys_untyped_buildAction:
  "buildAction twoKeysRecord (testOptions \<lparr> type := None \<rparr>) =
     Inr (JObj (NewImage twoKeysRecord),
          \<lparr> d_index = ''index'', d_type = None, d_id = JStr ''a.b'',
            d_parent = None, d_version = None, d_versionType = None \<rparr>)"
  by (simp add: buildAction_def buildDoc_def resolveId_def resolveIndex_def resolveType_def
      testOptions_def truthyStr_def truthyPaths_def theSeparator_def twoKeysRecord_def
      getField_def get_own_key join_def joinElem_def)

lemma blankType_buildAction:
  "buildAction blankTypeRecord (testOptions \<lparr> type := None, typeField := Some (Single ''t'') \<rparr>) =
     Inr (JObj (NewImage blankTypeRecord),
          \<lparr> d_index = ''index'', d_type = None, d_id = JStr ''a'',
            d_parent = None, d_version = None, d_versionType = None \<rparr>)"
  by (simp add: buildAction_def buildDoc_def resolveId_def resolveIndex_def resolveType_def
      testOptions_def truthyStr_def truthyPaths_def theSeparator_def blankTypeRecord_def
      getField_def get_own_key join_def joinElem_def get_def baseGet_def castPath_def isKey_def)

lemma blankType_assemble:
  "assembleField blankTypeRecord (Some (Single ''t'')) ''.'' = Inr (JStr [])"
  by (simp add: blankTypeRecord_def getField_def get_def baseGet_def castPath_def isKey_def)

text \<open>
  C7. In the descriptor that \<open>buildAction\<close> returns, the type attribute is absent
  when \<open>type\<close> and \<open>typeField\<close> are both unset (or blank), and when \<open>type\<close> is unset and
  \<open>typeField\<close> resolves to a falsy value. A present type attribute is never the
  empty string, nor any other falsy value. The same holds of every action of the
  batch that \<open>buildRequest\<close> assembles.
\<close>

theorem blank_type_omitted:
  "(buildAction pr opts = Inr (doc, act) \<longrightarrow>
      (\<not> truthyStr (type opts) \<and> \<not> truthyPaths (typeField opts) \<longrightarrow> d_type act = None)
    \<and> (\<not> truthyStr (type opts) \<and> assembleField pr (typeField opts) (theSeparator opts) = Inr v
         \<and> \<not> truthy v \<longrightarrow> d_type act = None)
    \<and> d_type act \<noteq> Some (JStr [])
    \<and> typeAbsentOrTruthy act)
   \<and> (buildRequest event ctx opts = (Inr req, t) \<longrightarrow> list_all itemTypeOk (actions req))"
proof -
  have "d_type act = None"
    if "buildAction pr opts = Inr (doc, act)" "\<not> truthyStr (type opts)" "\<not> truthyPaths (typeField opts)"
    using buildAction_type [OF that(1)] that(2,3)
    by (auto simp: resolveType_def truthyPaths_def split: option.splits paths.splits)
  moreover have "d_type act = None"
    if "buildAction pr opts = Inr (doc, act)" "\<not> truthyStr (type opts)"
      "assembleField pr (typeField opts) (theSeparator opts) = Inr v" "\<not> truthy v"
    using buildAction_type [OF that(1)] that(2,3,4)
    by (auto simp: resolveType_def truthyPaths_def split: option.splits paths.splits if_splits)
  moreover have "d_type act \<noteq> Some (JStr [])" "typeAbsentOrTruthy act"
    if "buildAction pr opts = Inr (doc, act)"
    using buildAction_typeOk [OF that] by (auto simp: typeAbsentOrTruthy_def)
  moreover have "list_all itemTypeOk (actions req)"
    if "buildRequest event ctx opts = (Inr req, t)"
    using that loop_typeOk [of event ctx opts "Records event" "\<lparr> actions = [], meta = [] \<rparr>" "[]" req t]
    by (simp add: buildRequest_def)
  ultimately show ?thesis by blast
qed

lemma twoKeys_untyped_buildRequest:
  "buildRequest twoKeysEvent JNull (testOptions \<lparr> type := None \<rparr>) =
     (Inr \<lparr> actions = [IndexAction untypedDescriptor, Document (JObj (NewImage twoKeysRecord))],
            meta = [\<lparr> meta_event = (testRecord ''INSERT'' twoKeys, twoKeysRecord),
                      meta_action = IndexAction untypedDescriptor,
                      meta_document = JObj (NewImage twoKeysRecord) \<rparr>] \<rparr>, [])"
  by (simp add: buildRequest_def twoKeysEvent_def buildRequestStep_def parse_twoKeys
      twoKeys_untyped_buildAction untypedDescriptor_def)
     (simp add: testRecord_def)

theorem blank_type_omitted_witness:
  "d_type untypedDescriptor = None
   \<and> map_sum id (\<lambda>r. d_type (snd r))
        (buildAction blankTypeRecord (testOptions \<lparr> type := None, typeField := Some (Single ''t'') \<rparr>))
       = Inr None
   \<and> list_all itemTypeOk [IndexAction untypedDescriptor, Document (JObj (NewImage twoKeysRecord))]"
proof -
  have u: "\<not> truthyStr (type (testOptions \<lparr> type := None \<rparr>))"
    "\<not> truthyPaths (typeField (testOptions \<lparr> type := None \<rparr>))"
    by (simp_all add: truthyStr_def truthyPaths_def testOptions_def)
  have a: "d_type untypedDescriptor = None"
    using blank_type_omitted [where pr = twoKeysRecord and opts = "testOptions \<lparr> type := None \<rparr>"
        and doc = "JObj (NewImage twoKeysRecord)" and act = untypedDescriptor]
      twoKeys_untyped_buildAction u
    by (simp add: untypedDescriptor_def)
  have b: "\<not> truthyStr (type (testOptions \<lparr> type := None, typeField := Some (Single ''t'') \<rparr>))"
    "assembleField blankTypeRecord
       (typeField (testOptions \<lparr> type := None, typeField := Some (Single ''t'') \<rparr>))
       (theSeparator (testOptions \<lparr> type := None, typeField := Some (Single ''t'') \<rparr>)) = Inr (JStr [])"
    "\<not> truthy (JStr [])"
    using blankType_assemble
    by (simp_all add: truthyStr_def testOptions_def theSeparator_def del: assembleField.simps)
  have c: "list_all itemTypeOk [IndexAction untypedDescriptor, Document (JObj (NewImage twoKeysRecord))]"
    using blank_type_omitted [where event = twoKeysEvent and ctx = JNull
        and opts = "testOptions \<lparr> type := None \<rparr>"
        and req = "\<lparr> actions = [IndexAction untypedDescriptor, Document (JObj (NewImage twoKeysRecord))],
            meta = [\<lparr> meta_event = (testRecord ''INSERT'' twoKeys, twoKeysRecord),
                      meta_action = IndexAction untypedDescriptor,
                      meta_document = JObj (NewImage twoKeysRecord) \<rparr>] \<rparr>" and t = "[]"]
      twoKeys_untyped_buildRequest
    by simp
  have d: "d_type \<lparr> d_index = ''index'', d_type = None, d_id = JStr ''a'',
            d_parent = None, d_version = None, d_versionType = None \<rparr> = None"
    using blank_type_omitted [where pr = blankTypeRecord
        and opts = "testOptions \<lparr> type := None, typeField := Some (Single ''t'') \<rparr>"
        and doc = "JObj (NewImage blankTypeRecord)" and v = "JStr []"
        and act = "\<lparr> d_index = ''index'', d_type = None, d_id = JStr ''a'',
            d_parent = None, d_version = None, d_versionType = None \<rparr>"]
      blankType_buildAction b
    by simp
  from a c d show ?thesis
    by (simp add: blankType_buildAction)
qed

subsection \<open>BatchAssembler: the version of a delete\<close>

lemma buildAction_version:
  assumes "buildAction pr opts = Inr (doc, act)"
    and "versionResolver opts \<noteq> None \<or> truthyStr (versionField opts)"
  shows "\<exists>n. resolveVersion pr opts doc = Inr (JNum n) \<and> d_version act = Some n"
proof -
  from assms obtain v n where v: "resolveVersion pr opts doc = Inr v"
    "validateVersion opts v = Inr n" "d_version act = Some n"
    by (auto simp: buildAction_def andThen_Inr_iff split: if_splits)
  from v(2) have "v = JNum n"
    by (auto simp: validateVersion_def VERSION_def split: option.splits jsval.splits)
  with v show ?thesis by simp
qed

text \<open>
  C4. For a record whose event name is \<open>REMOVE\<close>, with a version configured through
  \<open>versionField\<close> or \<open>versionResolver\<close> and a truthy document, so that the record is
  emitted: the version was resolved to a number \<open>n\<close>, and the step of \<open>buildRequest\<close>
  for the record appends one delete action whose descriptor is the one \<open>buildAction\<close>
  returned with the version \<open>n + 1\<close>. The metadata entry holds the same action.
\<close>

theorem remove_increments_version:
  assumes "eventName record = Some ''REMOVE''"
    and "parseRecord record = Inr pr"
    and "buildAction pr opts = Inr (doc, act)"
    and "truthy doc"
    and "versionResolver opts \<noteq> None \<or> truthyStr (versionField opts)"
  shows "\<exists>n. resolveVersion pr opts doc = Inr (JNum n)
           \<and> d_version act = Some n
           \<and> buildRequestStep opts record acc =
               Inr \<lparr> actions = actions acc @ [DeleteAction (act \<lparr> d_version := Some (n + 1) \<rparr>)],
                     meta = meta acc @ [\<lparr> meta_event = (record, pr),
                                           meta_action = DeleteAction (act \<lparr> d_version := Some (n + 1) \<rparr>),
                                           meta_document = doc \<rparr>] \<rparr>"
proof -
  from buildAction_version [OF assms(3,5)] obtain n
    where n: "resolveVersion pr opts doc = Inr (JNum n)" "d_version act = Some n"
    by blast
  from assms(1,2,3,4) n(2) have "buildRequestStep opts record acc =
      Inr \<lparr> actions = actions acc @ [DeleteAction (act \<lparr> d_version := Some (n + 1) \<rparr>)],
            meta = meta acc @ [\<lparr> meta_event = (record, pr),
                                  meta_action = DeleteAction (act \<lparr> d_version := Some (n + 1) \<rparr>),
                                  meta_document = doc \<rparr>] \<rparr>"
    by (simp add: buildRequestStep_def Let_def)
  with n show ?thesis by blast
qed

lemma parse_remove: "parseRecord removeRecord = Inr removeParsed"
  by (simp add: parseRecord_def testRecord_def removeRecord_def removeParsed_def unmarshallMap_def)

lemma showInt_41: "showInt 41 = ''41''"
  by code_simp

lemma remove_buildAction:
  "buildAction removeParsed versionOptions = Inr (JObj [], versionDescriptor 41)"
  by (simp add: buildAction_def buildDoc_def resolveId_def resolveIndex_def resolveType_def
      resolveVersion_def validateVersion_def VERSION_def versionOptions_def versionDescriptor_def
      testOptions_def truthyStr_def truthyPaths_def theSeparator_def removeParsed_def
      getField_def get_own_key join_def joinElem_def showInt_41)

theorem remove_increments_version_witness:
  "resolveVersion removeParsed versionOptions (JObj []) = Inr (JNum 41)
   \<and> buildRequestStep versionOptions removeRecord \<lparr> actions = [], meta = [] \<rparr> =
       Inr \<lparr> actions = [DeleteAction (versionDescriptor 42)],
             meta = [\<lparr> meta_event = (removeRecord, removeParsed),
                       meta_action = DeleteAction (versionDescriptor 42),
                       meta_document = JObj [] \<rparr>] \<rparr>"
proof -
  have h: "eventName removeRecord = Some ''REMOVE''" "truthy (JObj [])"
    "versionResolver versionOptions \<noteq> None \<or> truthyStr (versionField versionOptions)"
    by (simp_all add: removeRecord_def testRecord_def versionOptions_def truthyStr_def)
  from remove_increments_version [OF h(1) parse_remove remove_buildAction h(2,3),
      of "\<lparr> actions = [], meta = [] \<rparr>"]
  show ?thesis
    by (auto simp: versionDescriptor_def)
qed

subsection \<open>DeliveryCoordinator: the calls of an invocation\<close>

lemma handleTry_before_throws:
  "beforeHook opts = Some hook \<Longrightarrow> hook event ctx = Some thrown
   \<Longrightarrow> handleTry opts event ctx = (Inl thrown, [BeforeHookCall])"
  by (simp add: handleTry_def)

lemma handleTry_invalid:
  "beforeHookPasses opts event ctx \<Longrightarrow> \<not> EVENT event
   \<Longrightarrow> handleTry opts event ctx = (Inl (ValidationError ''event''), beforeTrace opts)"
  by (auto simp: handleTry_def beforeHookPasses_def beforeTrace_def split: option.splits)

lemma handleTry_empty:
  "beforeHookPasses opts event ctx \<Longrightarrow> EVENT event
   \<Longrightarrow> buildRequest event ctx opts = (Inr req, t) \<Longrightarrow> actions req = []
   \<Longrightarrow> handleTry opts event ctx = (Inr emptyResult, beforeTrace opts @ t)"
  by (auto simp: handleTry_def beforeHookPasses_def beforeTrace_def split: option.splits)

lemma handleTry_submit:
  assumes "beforeHookPasses opts event ctx" "EVENT event"
    and "buildRequest event ctx opts = (Inr req, t)" "actions req \<noteq> []"
  shows "handleTry opts event ctx =
     (fst (deliver opts event ctx req), beforeTrace opts @ t @ snd (deliver opts event ctx req))"
  using assms
  by (cases "beforeHook opts")
     (simp_all add: handleTry_def beforeHookPasses_def beforeTrace_def split_beta)

lemma loop_trace:
  "buildRequestLoop event ctx opts records acc trace = (r, t)
   \<Longrightarrow> \<exists>errs. t = trace @ map RecordErrorHookCall errs"
proof (induction records arbitrary: acc trace)
  case Nil
  then show ?case by simp
next
  case (Cons x xs)
  show ?case
  proof (cases "buildRequestStep opts x acc")
    case (Inr acc')
    with Cons show ?thesis by simp
  next
    case (Inl err)
    show ?thesis
    proof (cases "recordErrorHook opts")
      case None
      with Inl Cons.prems show ?thesis by simp
    next
      case (Some hook)
      show ?thesis
      proof (cases "hook event ctx err")
        case None
        with Inl Some Cons.prems
        have "buildRequestLoop event ctx opts xs acc (trace @ [RecordErrorHookCall err]) = (r, t)"
          by simp
        from Cons.IH [OF this] obtain errs
          where "t = (trace @ [RecordErrorHookCall err]) @ map RecordErrorHookCall errs"
          by blast
        then have "t = trace @ map RecordErrorHookCall (err # errs)" by simp
        then show ?thesis by blast
      next
        case (Some thrown)
        with Inl \<open>recordErrorHook opts = Some hook\<close> Cons.prems
        have "t = trace @ map RecordErrorHookCall [err]" by simp
        then show ?thesis by blast
      qed
    qed
  qed
qed

lemma buildRequest_trace:
  "buildRequest event ctx opts = (r, t) \<Longrightarrow> \<exists>errs. t = map RecordErrorHookCall errs"
  using loop_trace [of event ctx opts "Records event" _ "[]" r t]
  by (simp add: buildRequest_def)

lemma bulkCalls_append [simp]: "bulkCalls (xs @ ys) = bulkCalls xs + bulkCalls ys"
  by (simp add: bulkCalls_def)

lemma bulkCalls_recordErrors [simp]: "bulkCalls (map RecordErrorHookCall errs) = 0"
  by (induction errs) (simp_all add: bulkCalls_def)

lemma bulkCalls_beforeTrace [simp]: "bulkCalls (beforeTrace opts) = 0"
  by (simp add: bulkCalls_def beforeTrace_def split: option.splits)

lemma bulkCalls_BulkCall [simp]: "bulkCalls (map (BulkCall req) outcomes) = length outcomes"
  by (induction outcomes) (simp_all add: bulkCalls_def)

lemma step_docFalsy: "docFalsy opts record \<Longrightarrow> buildRequestStep opts record acc = Inr acc"
  by (auto simp: docFalsy_def buildRequestStep_def split: sum.splits)

lemma loop_docFalsy:
  "list_all (docFalsy opts) records
   \<Longrightarrow> buildRequestLoop event ctx opts records acc trace = (Inr acc, trace)"
  by (induction records) (simp_all add: step_docFalsy)

lemma retryFrom_nonempty: "retryFrom operation k n \<noteq> []"
  by (induction n arbitrary: k) (simp_all split: sum.splits)

lemma retry_nonempty: "retry operation n \<noteq> []"
  by (simp add: retry_def retryFrom_nonempty)

lemma map_BulkCall_last:
  "outcomes \<noteq> [] \<Longrightarrow>
   map (BulkCall rq) outcomes = map (BulkCall rq) (butlast outcomes) @ [BulkCall rq (last outcomes)]"
  by (induction outcomes) simp_all

lemma deliver_after:
  assumes "AfterHookCall res m \<in> set (snd (deliver opts event ctx req))"
  shows "\<exists>pre. snd (deliver opts event ctx req)
           = pre @ [BulkCall (bulkRequestOf opts req) (Inr res), AfterHookCall res m]"
proof -
  let ?rq = "bulkRequestOf opts req"
  let ?attempts = "retry (\<lambda>attempt. client (elasticsearch opts) (attempt - 1) ?rq) (theRetries opts)"
  have split: "map (BulkCall ?rq) ?attempts
      = map (BulkCall ?rq) (butlast ?attempts) @ [BulkCall ?rq (last ?attempts)]"
    by (rule map_BulkCall_last) (rule retry_nonempty)
  show ?thesis
  proof (cases "last ?attempts")
    case (Inl err)
    with assms show ?thesis
      by (auto simp: deliver_def Let_def)
  next
    case (Inr result)
    show ?thesis
    proof (cases "afterHook opts")
      case None
      with Inr assms show ?thesis
        by (auto simp: deliver_def Let_def)
    next
      case (Some hook)
      with Inr have t: "snd (deliver opts event ctx req)
          = map (BulkCall ?rq) ?attempts @ [AfterHookCall result (meta req)]"
        by (simp add: deliver_def Let_def split: sum.splits)
      with assms have "res = result" "m = meta req"
        by auto
      with t split Inr have "snd (deliver opts event ctx req)
          = map (BulkCall ?rq) (butlast ?attempts) @ [BulkCall ?rq (Inr res), AfterHookCall res m]"
        by simp
      then show ?thesis by blast
    qed
  qed
qed

lemma beforeTrace_no_after: "AfterHookCall res m \<notin> set (beforeTrace opts)"
  by (simp add: beforeTrace_def split: option.splits)

lemma handleTry_after:
  assumes "AfterHookCall res m \<in> set (snd (handleTry opts event ctx))"
  shows "\<exists>pre rq. snd (handleTry opts event ctx) = pre @ [BulkCall rq (Inr res), AfterHookCall res m]"
proof (cases "beforeHookPasses opts event ctx")
  case False
  then obtain hook thrown where "beforeHook opts = Some hook" "hook event ctx = Some thrown"
    by (auto simp: beforeHookPasses_def split: option.splits)
  from handleTry_before_throws [OF this] assms show ?thesis by simp
next
  case passes: True
  show ?thesis
  proof (cases "EVENT event")
    case False
    from handleTry_invalid [OF passes this] assms beforeTrace_no_after show ?thesis by simp
  next
    case valid: True
    obtain r t where bt: "buildRequest event ctx opts = (r, t)"
      by (cases "buildRequest event ctx opts")
    from buildRequest_trace [OF bt] obtain errs where t: "t = map RecordErrorHookCall errs" ..
    then have nt: "AfterHookCall res m \<notin> set t" by auto
    show ?thesis
    proof (cases r)
      case (Inl err)
      with bt passes valid have "snd (handleTry opts event ctx) = beforeTrace opts @ t"
        by (cases "beforeHook opts")
           (simp_all add: handleTry_def beforeHookPasses_def beforeTrace_def)
      with assms nt beforeTrace_no_after show ?thesis by simp
    next
      case (Inr req)
      show ?thesis
      proof (cases "actions req = []")
        case True
        from handleTry_empty [OF passes valid bt [unfolded Inr] True] assms nt beforeTrace_no_after
        show ?thesis by simp
      next
        case False
        note sub = handleTry_submit [OF passes valid bt [unfolded Inr] False]
        with assms nt beforeTrace_no_after
        have "AfterHookCall res m \<in> set (snd (deliver opts event ctx req))"
          by simp
        from deliver_after [OF this] obtain pre where
          "snd (deliver opts event ctx req)
             = pre @ [BulkCall (bulkRequestOf opts req) (Inr res), AfterHookCall res m]" ..
        with sub have "snd (handleTry opts event ctx)
            = (beforeTrace opts @ t @ pre) @ [BulkCall (bulkRequestOf opts req) (Inr res), AfterHookCall res m]"
          by simp
        then show ?thesis by blast
      qed
    qed
  qed
qed

lemma handle_trace:
  "snd (handle opts event ctx) = snd (handleTry opts event ctx)
   \<or> (\<exists>err. snd (handle opts event ctx) = snd (handleTry opts event ctx) @ [ErrorHookCall err])"
  by (cases "handleTry opts event ctx") (auto simp: handle_def split: sum.splits option.splits)

lemma bulkCalls_handle: "bulkCalls (snd (handle opts event ctx)) = bulkCalls (snd (handleTry opts event ctx))"
  using handle_trace [of opts event ctx] by (auto simp: bulkCalls_def)

lemma retryFrom_always_failing:
  assumes "\<And>k. isl (operation k)"
  shows "length (retryFrom operation k n) = n + 1 \<and> last (retryFrom operation k n) = operation (k + n)"
proof (induction n arbitrary: k)
  case 0
  then show ?case by simp
next
  case (Suc n)
  from assms [of k] obtain e where e: "operation k = Inl e"
    by (cases "operation k") simp_all
  with Suc [of "Suc k"] retryFrom_nonempty [of operation "Suc k" n] show ?case
    by simp
qed

lemma deliver_always_failing:
  assumes "\<And>n r. isl (client (elasticsearch opts) n r)"
  shows "deliver opts event ctx req =
     (client (elasticsearch opts) (theRetries opts) (bulkRequestOf opts req),
      map (BulkCall (bulkRequestOf opts req))
        (retry (\<lambda>attempt. client (elasticsearch opts) (attempt - 1) (bulkRequestOf opts req))
           (theRetries opts)))
   \<and> bulkCalls (snd (deliver opts event ctx req)) = theRetries opts + 1"
proof -
  let ?op = "\<lambda>attempt. client (elasticsearch opts) (attempt - 1) (bulkRequestOf opts req)"
  have f: "isl (?op k)" for k by (rule assms)
  from retryFrom_always_failing [of ?op 1 "theRetries opts", OF f]
  have len: "length (retry ?op (theRetries opts)) = theRetries opts + 1"
    and lst: "last (retry ?op (theRetries opts))
        = client (elasticsearch opts) (theRetries opts) (bulkRequestOf opts req)"
    by (simp_all add: retry_def)
  from assms [of "theRetries opts" "bulkRequestOf opts req"] obtain e
    where e: "client (elasticsearch opts) (theRetries opts) (bulkRequestOf opts req) = Inl e"
    by (cases "client (elasticsearch opts) (theRetries opts) (bulkRequestOf opts req)") simp_all
  from lst e have d: "deliver opts event ctx req =
     (client (elasticsearch opts) (theRetries opts) (bulkRequestOf opts req),
      map (BulkCall (bulkRequestOf opts req)) (retry ?op (theRetries opts)))"
    by (simp add: deliver_def Let_def)
  with len show ?thesis by simp
qed

subsection \<open>DeliveryCoordinator: the example invocations, evaluated\<close>

lemma EVENT_twoKeys: "EVENT twoKeysEvent"
  by (simp add: EVENT_def twoKeysEvent_def testRecord_def)

lemma skip_buildAction:
  "buildAction twoKeysRecord skipOptions = Inr (JNull, typedDescriptor)"
  by (simp add: buildAction_def buildDoc_def resolveId_def resolveIndex_def resolveType_def
      testOptions_def truthyStr_def truthyPaths_def theSeparator_def twoKeysRecord_def
      getField_def get_own_key join_def joinElem_def skipOptions_def nullTransform_def
      typedDescriptor_def)

lemma skip_docFalsy: "list_all (docFalsy skipOptions) (Records twoKeysEvent)"
  by (simp add: docFalsy_def twoKeysEvent_def parse_twoKeys skip_buildAction)

lemma skip_buildRequest:
  "buildRequest twoKeysEvent JNull skipOptions = (Inr \<lparr> actions = [], meta = [] \<rparr>, [])"
  by (simp add: buildRequest_def twoKeysEvent_def buildRequestStep_def parse_twoKeys skip_buildAction)

lemma skip_before: "beforeHookPasses skipOptions twoKeysEvent JNull"
  by (simp add: beforeHookPasses_def skipOptions_def testOptions_def)

lemma failing_buildRequest:
  "buildRequest twoKeysEvent JNull (failingOptions ro) = (Inr twoKeysRequest, [])"
proof -
  have "buildAction twoKeysRecord (failingOptions ro) = Inr (JObj (NewImage twoKeysRecord), typedDescriptor)"
    by (simp add: buildAction_def buildDoc_def resolveId_def resolveIndex_def resolveType_def
        testOptions_def truthyStr_def truthyPaths_def theSeparator_def twoKeysRecord_def
        getField_def get_own_key join_def joinElem_def failingOptions_def typedDescriptor_def)
  then show ?thesis
    by (simp add: buildRequest_def twoKeysEvent_def buildRequestStep_def parse_twoKeys twoKeysRequest_def)
       (simp add: testRecord_def twoKeysRecord_def)
qed

lemma after_handle:
  "handle afterOptions twoKeysEvent JNull =
     (Inr (JStr ''after''),
      [BulkCall (bulkRequestOf afterOptions twoKeysRequest) (Inr okResult),
       AfterHookCall okResult (meta twoKeysRequest)])"
proof -
  have "buildAction twoKeysRecord afterOptions = Inr (JObj (NewImage twoKeysRecord), typedDescriptor)"
    by (simp add: buildAction_def buildDoc_def resolveId_def resolveIndex_def resolveType_def
        testOptions_def truthyStr_def truthyPaths_def theSeparator_def twoKeysRecord_def
        getField_def get_own_key join_def joinElem_def afterOptions_def typedDescriptor_def)
  then have b: "buildRequest twoKeysEvent JNull afterOptions = (Inr twoKeysRequest, [])"
    by (simp add: buildRequest_def twoKeysEvent_def buildRequestStep_def parse_twoKeys twoKeysRequest_def)
       (simp add: testRecord_def twoKeysRecord_def)
  have d: "deliver afterOptions twoKeysEvent JNull twoKeysRequest =
     (Inr (JStr ''after''),
      [BulkCall (bulkRequestOf afterOptions twoKeysRequest) (Inr okResult),
       AfterHookCall okResult (meta twoKeysRequest)])"
    by (simp add: deliver_def retry_def theRetries_def DEFAULT_RETRY_COUNT_def afterOptions_def
        testOptions_def okClient_def okResult_def markAfter_def)
  have p: "beforeHookPasses afterOptions twoKeysEvent JNull"
    by (simp add: beforeHookPasses_def afterOptions_def testOptions_def)
  have a: "actions twoKeysRequest \<noteq> []"
    by (simp add: twoKeysRequest_def)
  have "beforeTrace afterOptions = []"
    by (simp add: beforeTrace_def afterOptions_def testOptions_def)
  with handleTry_submit [OF p EVENT_twoKeys b a] d show ?thesis
    by (simp add: handle_def)
qed

subsection \<open>DeliveryCoordinator: the empty batch\<close>

text \<open>
  C2. In an invocation that reaches the assembly (\<open>beforeHook\<close> did not throw and the
  batch has a valid shape) and assembles an empty action list, the handler returns
  exactly \<open>{took: 0, errors: false, items: []}\<close>, the object with these three
  members and these values, and makes no submission to the engine client. That is so
  in particular when the document of every record resolves falsy.
\<close>

theorem empty_batch_not_submitted:
  "(beforeHookPasses opts event ctx \<and> EVENT event
      \<and> buildRequest event ctx opts = (Inr req, t) \<and> actions req = []
    \<longrightarrow> fst (handle opts event ctx)
          = Inr (JObj [(''took'', JNum 0), (''errors'', JBool False), (''items'', JArr [])])
        \<and> bulkCalls (snd (handle opts event ctx)) = 0)
   \<and> (beforeHookPasses opts event ctx \<and> EVENT event \<and> list_all (docFalsy opts) (Records event)
    \<longrightarrow> fst (handle opts event ctx)
          = Inr (JObj [(''took'', JNum 0), (''errors'', JBool False), (''items'', JArr [])])
        \<and> bulkCalls (snd (handle opts event ctx)) = 0)"
proof -
  have a: "fst (handle opts event ctx)
        = Inr (JObj [(''took'', JNum 0), (''errors'', JBool False), (''items'', JArr [])])
      \<and> bulkCalls (snd (handle opts event ctx)) = 0"
    if h: "beforeHookPasses opts event ctx" "EVENT event"
      "buildRequest event ctx opts = (Inr req', t')" "actions req' = []" for req' t'
  proof -
    from buildRequest_trace [OF h(3)] obtain errs where "t' = map RecordErrorHookCall errs" ..
    with handleTry_empty [OF h] show ?thesis
      by (simp add: handle_def emptyResult_def)
  qed
  have b: "buildRequest event ctx opts = (Inr \<lparr> actions = [], meta = [] \<rparr>, [])"
    if "list_all (docFalsy opts) (Records event)"
    using that by (simp add: buildRequest_def loop_docFalsy)
  from a [of req t] a [of "\<lparr> actions = [], meta = [] \<rparr>" "[]"] b show ?thesis
    by simp
qed

theorem empty_batch_not_submitted_witness:
  "list_all (docFalsy skipOptions) (Records twoKeysEvent)
   \<and> fst (handle skipOptions twoKeysEvent JNull)
       = Inr (JObj [(''took'', JNum 0), (''errors'', JBool False), (''items'', JArr [])])
   \<and> bulkCalls (snd (handle skipOptions twoKeysEvent JNull)) = 0"
proof -
  have "actions \<lparr> actions = [], meta = [] \<rparr> = []" by simp
  with empty_batch_not_submitted [of skipOptions twoKeysEvent JNull "\<lparr> actions = [], meta = [] \<rparr>" "[]"]
    skip_before EVENT_twoKeys skip_buildRequest skip_docFalsy
  show ?thesis by blast
qed

text \<open>
  C10. In an invocation that assembles an empty action list, the handler returns the
  canonical empty result and \<open>afterHook\<close> is not run, whether it is configured or not.
  In every invocation, a run of \<open>afterHook\<close> comes right after a submission that
  succeeded, and it is given the result of that submission.
\<close>

theorem afterHook_only_after_submission:
  "(beforeHookPasses opts event ctx \<and> EVENT event
      \<and> buildRequest event ctx opts = (Inr req, t) \<and> actions req = []
    \<longrightarrow> fst (handle opts event ctx) = Inr emptyResult
        \<and> filter isAfterHookCall (snd (handle opts event ctx)) = [])
   \<and> (AfterHookCall res m \<in> set (snd (handle opts event ctx))
    \<longrightarrow> (\<exists>pre rq post. snd (handle opts event ctx)
            = pre @ [BulkCall rq (Inr res), AfterHookCall res m] @ post))"
proof -
  have a: "fst (handle opts event ctx) = Inr emptyResult
        \<and> filter isAfterHookCall (snd (handle opts event ctx)) = []"
    if h: "beforeHookPasses opts event ctx" "EVENT event"
      "buildRequest event ctx opts = (Inr req, t)" "actions req = []"
  proof -
    from buildRequest_trace [OF h(3)] obtain errs where "t = map RecordErrorHookCall errs" ..
    with handleTry_empty [OF h] show ?thesis
      by (auto simp: handle_def beforeTrace_def filter_empty_conv split: option.splits)
  qed
  have b: "\<exists>pre rq post. snd (handle opts event ctx)
            = pre @ [BulkCall rq (Inr res), AfterHookCall res m] @ post"
    if h: "AfterHookCall res m \<in> set (snd (handle opts event ctx))"
  proof -
    from h handle_trace [of opts event ctx]
    have in_try: "AfterHookCall res m \<in> set (snd (handleTry opts event ctx))"
      by auto
    from handleTry_after [OF this] obtain pre rq where
      tr: "snd (handleTry opts event ctx) = pre @ [BulkCall rq (Inr res), AfterHookCall res m]"
      by blast
    from handle_trace [of opts event ctx] show ?thesis
    proof
      assume "snd (handle opts event ctx) = snd (handleTry opts event ctx)"
      with tr have "snd (handle opts event ctx) = pre @ [BulkCall rq (Inr res), AfterHookCall res m] @ []"
        by simp
      then show ?thesis by blast
    next
      assume "\<exists>err. snd (handle opts event ctx) = snd (handleTry opts event ctx) @ [ErrorHookCall err]"
      then obtain err where "snd (handle opts event ctx) = snd (handleTry opts event ctx) @ [ErrorHookCall err]" ..
      with tr have "snd (handle opts event ctx)
          = pre @ [BulkCall rq (Inr res), AfterHookCall res m] @ [ErrorHookCall err]"
        by simp
      then show ?thesis by blast
    qed
  qed
  from a b show ?thesis by blast
qed

theorem afterHook_only_after_submission_witness:
  "afterHook skipOptions = Some markAfter
   \<and> fst (handle skipOptions twoKeysEvent JNull) = Inr emptyResult
   \<and> filter isAfterHookCall (snd (handle skipOptions twoKeysEvent JNull)) = []
   \<and> AfterHookCall okResult (meta twoKeysRequest) \<in> set (snd (handle afterOptions twoKeysEvent JNull))
   \<and> (\<exists>pre rq post. snd (handle afterOptions twoKeysEvent JNull)
         = pre @ [BulkCall rq (Inr okResult), AfterHookCall okResult (meta twoKeysRequest)] @ post)"
proof -
  have e: "actions \<lparr> actions = [], meta = [] \<rparr> = []" by simp
  have m: "AfterHookCall okResult (meta twoKeysRequest) \<in> set (snd (handle afterOptions twoKeysEvent JNull))"
    by (simp add: after_handle)
  have h: "afterHook skipOptions = Some markAfter"
    by (simp add: skipOptions_def)
  from afterHook_only_after_submission
    [of skipOptions twoKeysEvent JNull "\<lparr> actions = [], meta = [] \<rparr>" "[]"]
    skip_before EVENT_twoKeys skip_buildRequest e
  have 1: "fst (handle skipOptions twoKeysEvent JNull) = Inr emptyResult
   \<and> filter isAfterHookCall (snd (handle skipOptions twoKeysEvent JNull)) = []"
    by blast
  from afterHook_only_after_submission
    [where opts = afterOptions and event = twoKeysEvent and ctx = JNull and res = okResult
      and m = "meta twoKeysRequest"] m
  have 2: "\<exists>pre rq post. snd (handle afterOptions twoKeysEvent JNull)
         = pre @ [BulkCall rq (Inr okResult), AfterHookCall okResult (meta twoKeysRequest)] @ post"
    by blast
  from 1 2 m h show ?thesis by blast
qed

subsection \<open>DeliveryCoordinator: failures before the assembly\<close>

text \<open>
  C3, as stated, fails. A batch whose record has no \<open>eventName\<close> is invalid; with an
  \<open>errorHook\<close> that returns \<open>'recovered'\<close>, the invocation ends with that value: the
  validation error went to the hook and did not reach the caller.
\<close>

theorem invalid_event_errorHook_counterexample:
  "\<not> EVENT invalidEvent
   \<and> errorHook (testOptions \<lparr> errorHook := Some recoverHook \<rparr>) = Some recoverHook
   \<and> handle (testOptions \<lparr> errorHook := Some recoverHook \<rparr>) invalidEvent JNull
       = (Inr (JStr ''recovered''), [ErrorHookCall (ValidationError ''event'')])"
  by (simp add: handle_def handleTry_def EVENT_def invalidEvent_def testOptions_def recoverHook_def)

text \<open>
  C3, amended. When the incoming batch has an invalid shape (and \<open>beforeHook\<close> did not
  throw), the \<open>ValidationError\<close> propagates to the caller when no \<open>errorHook\<close> is
  configured; when one is configured, the error is handed to it, once, and the
  invocation ends as the hook does. No record is mapped and nothing is submitted.
\<close>

theorem invalid_event_fatal_without_errorHook:
  assumes "beforeHookPasses opts event ctx" and "\<not> EVENT event"
  shows "handle opts event ctx =
     (case errorHook opts of
        None \<Rightarrow> (Inl (ValidationError ''event''), beforeTrace opts)
      | Some hook \<Rightarrow> (hook event ctx (ValidationError ''event''),
                      beforeTrace opts @ [ErrorHookCall (ValidationError ''event'')]))"
  using handleTry_invalid [OF assms] by (simp add: handle_def split: option.splits)

theorem invalid_event_fatal_without_errorHook_witness:
  "handle testOptions invalidEvent JNull = (Inl (ValidationError ''event''), [])
   \<and> handle (testOptions \<lparr> errorHook := Some recoverHook \<rparr>) invalidEvent JNull
       = (recoverHook invalidEvent JNull (ValidationError ''event''),
          [ErrorHookCall (ValidationError ''event'')])"
proof -
  have inv: "\<not> EVENT invalidEvent"
    by (simp add: EVENT_def invalidEvent_def)
  have p1: "beforeHookPasses testOptions invalidEvent JNull"
    by (simp add: beforeHookPasses_def testOptions_def)
  have p2: "beforeHookPasses (testOptions \<lparr> errorHook := Some recoverHook \<rparr>) invalidEvent JNull"
    by (simp add: beforeHookPasses_def testOptions_def)
  from invalid_event_fatal_without_errorHook [OF p1 inv]
    invalid_event_fatal_without_errorHook [OF p2 inv]
  show ?thesis
    by (simp add: testOptions_def beforeTrace_def)
qed

text \<open>
  C5, as stated, fails. With a \<open>beforeHook\<close> that throws and an \<open>errorHook\<close> that
  returns \<open>'recovered'\<close>, the invocation ends with that value: the failure of
  \<open>beforeHook\<close> was intercepted by \<open>errorHook\<close>.
\<close>

theorem beforeHook_errorHook_counterexample:
  "beforeHook (testOptions \<lparr> beforeHook := Some throwingBeforeHook, errorHook := Some recoverHook \<rparr>)
     = Some throwingBeforeHook
   \<and> throwingBeforeHook twoKeysEvent JNull = Some (Thrown (JStr ''before''))
   \<and> handle (testOptions \<lparr> beforeHook := Some throwingBeforeHook, errorHook := Some recoverHook \<rparr>)
        twoKeysEvent JNull
       = (Inr (JStr ''recovered''), [BeforeHookCall, ErrorHookCall (Thrown (JStr ''before''))])"
  by (simp add: handle_def handleTry_def testOptions_def recoverHook_def throwingBeforeHook_def)

text \<open>
  C5, amended. When a configured \<open>beforeHook\<close> throws, nothing else of the invocation
  runs; the failure propagates to the caller when no \<open>errorHook\<close> is configured,
  and when one is configured the failure is handed to it and the invocation ends as
  the hook does.
\<close>

theorem beforeHook_failure_propagates_without_errorHook:
  assumes "beforeHook opts = Some hook" and "hook event ctx = Some thrown"
  shows "handle opts event ctx =
     (case errorHook opts of
        None \<Rightarrow> (Inl thrown, [BeforeHookCall])
      | Some eh \<Rightarrow> (eh event ctx thrown, [BeforeHookCall, ErrorHookCall thrown]))"
  using handleTry_before_throws [OF assms] by (simp add: handle_def split: option.splits)

theorem beforeHook_failure_propagates_without_errorHook_witness:
  "handle (testOptions \<lparr> beforeHook := Some throwingBeforeHook \<rparr>) twoKeysEvent JNull
     = (Inl (Thrown (JStr ''before'')), [BeforeHookCall])"
proof -
  have b: "beforeHook (testOptions \<lparr> beforeHook := Some throwingBeforeHook \<rparr>) = Some throwingBeforeHook"
    by simp
  have t: "throwingBeforeHook twoKeysEvent JNull = Some (Thrown (JStr ''before''))"
    by (simp add: throwingBeforeHook_def)
  from beforeHook_failure_propagates_without_errorHook [OF b t]
  show ?thesis by (simp add: testOptions_def)
qed

subsection \<open>DeliveryCoordinator: retries\<close>

text \<open>
  C6. In an invocation that reaches the submission (a valid batch with a non-empty
  action list) with an engine client whose \<open>bulk\<close> always fails, the submission
  entry point is invoked \<open>retries + 1\<close> times: exactly 3 times for
  \<open>retryOptions.retries = 2\<close>, and exactly once, with no retry, when there are no
  \<open>retryOptions\<close>. Without an \<open>errorHook\<close> the invocation then fails, with the error of
  the last attempt.
\<close>

theorem retries_plus_one_submissions:
  assumes "beforeHookPasses opts event ctx" and "EVENT event"
    and "buildRequest event ctx opts = (Inr req, t)" and "actions req \<noteq> []"
    and "\<And>n r. isl (client (elasticsearch opts) n r)"
  shows "bulkCalls (snd (handle opts event ctx)) = theRetries opts + 1
    \<and> (retryOptions opts = Some \<lparr> retries = Some 2 \<rparr> \<longrightarrow> bulkCalls (snd (handle opts event ctx)) = 3)
    \<and> (retryOptions opts = None \<longrightarrow> bulkCalls (snd (handle opts event ctx)) = 1)
    \<and> (errorHook opts = None \<longrightarrow>
          isl (fst (handle opts event ctx))
          \<and> fst (handle opts event ctx)
              = client (elasticsearch opts) (theRetries opts) (bulkRequestOf opts req))"
proof -
  note sub = handleTry_submit [OF assms(1-4)]
  note del = deliver_always_failing [of opts event ctx req, OF assms(5)]
  from buildRequest_trace [OF assms(3)] obtain errs where t: "t = map RecordErrorHookCall errs" ..
  from sub have st: "snd (handleTry opts event ctx)
      = beforeTrace opts @ t @ snd (deliver opts event ctx req)"
    by simp
  from del have dc: "bulkCalls (snd (deliver opts event ctx req)) = theRetries opts + 1" ..
  from st dc t have n: "bulkCalls (snd (handle opts event ctx)) = theRetries opts + 1"
    by (simp add: bulkCalls_handle)
  have f: "isl (client (elasticsearch opts) (theRetries opts) (bulkRequestOf opts req))"
    by (rule assms(5))
  then obtain e where e: "client (elasticsearch opts) (theRetries opts) (bulkRequestOf opts req) = Inl e"
    by (cases "client (elasticsearch opts) (theRetries opts) (bulkRequestOf opts req)") simp_all
  from del have "fst (deliver opts event ctx req)
      = client (elasticsearch opts) (theRetries opts) (bulkRequestOf opts req)"
    by simp
  with sub have "fst (handleTry opts event ctx)
      = client (elasticsearch opts) (theRetries opts) (bulkRequestOf opts req)"
    by simp
  with e have "fst (handle opts event ctx)
      = client (elasticsearch opts) (theRetries opts) (bulkRequestOf opts req)"
    if "errorHook opts = None"
    using that by (cases "handleTry opts event ctx") (simp add: handle_def)
  with n f show ?thesis
    by (auto simp: theRetries_def DEFAULT_RETRY_COUNT_def)
qed

theorem retries_plus_one_submissions_witness:
  "bulkCalls (snd (handle (failingOptions (Some \<lparr> retries = Some 2 \<rparr>)) twoKeysEvent JNull)) = 3
   \<and> bulkCalls (snd (handle (failingOptions None) twoKeysEvent JNull)) = 1
   \<and> fst (handle (failingOptions (Some \<lparr> retries = Some 2 \<rparr>)) twoKeysEvent JNull)
       = Inl (Thrown (JStr ''indexing error''))"
proof -
  have p: "beforeHookPasses (failingOptions ro) twoKeysEvent JNull" for ro
    by (simp add: beforeHookPasses_def failingOptions_def testOptions_def)
  have a: "actions twoKeysRequest \<noteq> []"
    by (simp add: twoKeysRequest_def)
  have f: "isl (client (elasticsearch (failingOptions ro)) n r)" for ro n r
    by (simp add: failingOptions_def failingClient_def)
  have r2: "retryOptions (failingOptions (Some \<lparr> retries = Some 2 \<rparr>)) = Some \<lparr> retries = Some 2 \<rparr>"
    and r0: "retryOptions (failingOptions None) = None"
    and eh: "errorHook (failingOptions (Some \<lparr> retries = Some 2 \<rparr>)) = None"
    by (simp_all add: failingOptions_def testOptions_def)
  have c: "client (elasticsearch (failingOptions ro)) n r = Inl (Thrown (JStr ''indexing error''))" for ro n r
    by (simp add: failingOptions_def failingClient_def)
  from retries_plus_one_submissions [OF p EVENT_twoKeys failing_buildRequest a f,
      of "Some \<lparr> retries = Some 2 \<rparr>"] r2 eh c
  have "bulkCalls (snd (handle (failingOptions (Some \<lparr> retries = Some 2 \<rparr>)) twoKeysEvent JNull)) = 3"
    "fst (handle (failingOptions (Some \<lparr> retries = Some 2 \<rparr>)) twoKeysEvent JNull)
       = Inl (Thrown (JStr ''indexing error''))"
    by simp_all
  moreover from retries_plus_one_submissions [OF p EVENT_twoKeys failing_buildRequest a f, of None] r0
  have "bulkCalls (snd (handle (failingOptions None) twoKeysEvent JNull)) = 1"
    by simp
  ultimately show ?thesis by simp
qed

end
